theory Spec2Isabelle
  imports
    Complex_Main
    "HOL-Library.Char_ord"
    "HOL-Library.List_Lexorder"
begin

section \<open>Configuration\<close>

text \<open>
  The daemon reads its tunables from the process environment when the module is loaded
  (\<^verbatim>\<open>viking_daemon.py\<close>, lines 29 to 53).  The record below holds the integers
  that \<^verbatim>\<open>int(os.environ.get(...))\<close> yields; the module-level constants are
  functions of it, with the floors the source applies.
\<close>

record environ =
  OPENVIKING_URL :: string
  VIKING_ENABLE_SHELL_MONITOR :: string
  VIKING_IDLE_TIMEOUT_SEC :: int
  VIKING_POLL_INTERVAL_SEC :: int
  VIKING_FAST_POLL_INTERVAL_SEC :: int
  VIKING_MAX_TRACKED_SESSIONS :: int
  VIKING_MAX_FILE_CURSORS :: int
  VIKING_SESSION_TTL_SEC :: int
  VIKING_MAX_MESSAGES_PER_SESSION :: int

definition default_environ :: environ where
  "default_environ =
     \<lparr> OPENVIKING_URL = ''http://127.0.0.1:8090/api/v1'',
       VIKING_ENABLE_SHELL_MONITOR = ''1'',
       VIKING_IDLE_TIMEOUT_SEC = 300,
       VIKING_POLL_INTERVAL_SEC = 30,
       VIKING_FAST_POLL_INTERVAL_SEC = 3,
       VIKING_MAX_TRACKED_SESSIONS = 240,
       VIKING_MAX_FILE_CURSORS = 800,
       VIKING_SESSION_TTL_SEC = 7200,
       VIKING_MAX_MESSAGES_PER_SESSION = 500 \<rparr>"

definition ENABLE_SHELL_MONITOR :: "environ \<Rightarrow> bool" where
  "ENABLE_SHELL_MONITOR e = (VIKING_ENABLE_SHELL_MONITOR e = ''1'')"

definition IDLE_TIMEOUT_SEC :: "environ \<Rightarrow> int" where
  "IDLE_TIMEOUT_SEC e = VIKING_IDLE_TIMEOUT_SEC e"

definition POLL_INTERVAL_SEC :: "environ \<Rightarrow> int" where
  "POLL_INTERVAL_SEC e = VIKING_POLL_INTERVAL_SEC e"

definition FAST_POLL_INTERVAL_SEC :: "environ \<Rightarrow> int" where
  "FAST_POLL_INTERVAL_SEC e = max 1 (VIKING_FAST_POLL_INTERVAL_SEC e)"

definition MAX_TRACKED_SESSIONS :: "environ \<Rightarrow> int" where
  "MAX_TRACKED_SESSIONS e = VIKING_MAX_TRACKED_SESSIONS e"

definition MAX_FILE_CURSORS :: "environ \<Rightarrow> int" where
  "MAX_FILE_CURSORS e = VIKING_MAX_FILE_CURSORS e"

definition SESSION_TTL_SEC :: "environ \<Rightarrow> int" where
  "SESSION_TTL_SEC e = VIKING_SESSION_TTL_SEC e"

definition MAX_MESSAGES_PER_SESSION :: "environ \<Rightarrow> int" where
  "MAX_MESSAGES_PER_SESSION e = VIKING_MAX_MESSAGES_PER_SESSION e"

section \<open>The session tracker's state\<close>

text \<open>
  A Python \<^verbatim>\<open>dict\<close> keeps its keys unique and iterates in insertion order, so the two
  tables of \<^verbatim>\<open>SessionTracker\<close> are association lists; \<open>dict_set\<close> overwrites in
  place or appends, \<open>dict_del\<close> removes.  Timestamps are the floats of
  \<^verbatim>\<open>time.time()\<close>, read here as real numbers.
\<close>

record session =
  last_seen :: real
  messages :: "string list"
  exported :: bool
  source :: string
  created :: real
  last_hash :: string

record source_cfg =
  path :: string
  sid_keys :: "string list"
  text_keys :: "string list"

record tracker =
  sessions :: "(string \<times> session) list"
  file_cursors :: "(string \<times> nat) list"
  active_jsonl :: "(string \<times> source_cfg) list"
  active_shell :: "(string \<times> string) list"
  export_count :: nat
  error_count :: nat
  last_activity_ts :: real
  last_pending_retry :: real
  error_log :: "string list"

text \<open>
  \<open>error_log\<close> is not a field of the class: it collects the messages that the tracker's
  methods pass to \<^verbatim>\<open>logger.error\<close>, oldest first.
\<close>

text \<open>The fields as \<^verbatim>\<open>SessionTracker.__init__\<close> sets them, before the first source refresh.\<close>

definition empty_tracker :: tracker where
  "empty_tracker =
     \<lparr> sessions = [], file_cursors = [], active_jsonl = [], active_shell = [],
       export_count = 0, error_count = 0, last_activity_ts = 0, last_pending_retry = 0,
       error_log = [] \<rparr>"

definition dict_get :: "('k \<times> 'v) list \<Rightarrow> 'k \<Rightarrow> 'v option" where
  "dict_get d k = map_of d k"

fun dict_set :: "('k \<times> 'v) list \<Rightarrow> 'k \<Rightarrow> 'v \<Rightarrow> ('k \<times> 'v) list" where
  "dict_set [] k v = [(k, v)]"
| "dict_set ((k', v') # d) k v = (if k' = k then (k, v) # d else (k', v') # dict_set d k v)"

definition dict_del :: "('k \<times> 'v) list \<Rightarrow> 'k \<Rightarrow> ('k \<times> 'v) list" where
  "dict_del d k = filter (\<lambda>kv. fst kv \<noteq> k) d"

definition dict_keys :: "('k \<times> 'v) list \<Rightarrow> 'k list" where
  "dict_keys d = map fst d"

section \<open>Cursor cleanup\<close>

text \<open>
  \<^verbatim>\<open>cleanup_cursors\<close> (lines 569 to 576): nothing happens at or below the cap;
  above it the first \<open>max 1 (n div 3)\<close> keys in sorted order are deleted.
\<close>

definition cleanup_cursors :: "environ \<Rightarrow> tracker \<Rightarrow> tracker" where
  "cleanup_cursors e t =
     (if int (length (file_cursors t)) \<le> MAX_FILE_CURSORS e then t
      else
        let keys = sort (dict_keys (file_cursors t));
            remove_n = max 1 (length keys div 3)
        in t\<lparr>file_cursors := foldl dict_del (file_cursors t) (take remove_n keys)\<rparr>)"

text \<open>A cursor table far above the default cap: 1201 distinct keys.\<close>

definition cursors_1201 :: "(string \<times> nat) list" where
  "cursors_1201 = map (\<lambda>i. (replicate i CHR ''k'', 0)) [0..<1201]"

definition tracker_1201 :: tracker where
  "tracker_1201 = empty_tracker\<lparr>file_cursors := cursors_1201\<rparr>"

definition tracker_3 :: tracker where
  "tracker_3 = empty_tracker\<lparr>file_cursors := [(''b'', 5), (''a'', 7), (''c'', 0)]\<rparr>"

section \<open>Strings\<close>

text \<open>
  A Python \<^verbatim>\<open>str\<close> is a sequence of code points.  The model is \<^typ>\<open>string\<close> with one
  \<^typ>\<open>char\<close> per code point, so it covers the texts whose code points lie below 256;
  \<open>length\<close> then counts what \<^verbatim>\<open>len\<close> counts.  On that range \<^verbatim>\<open>str.isspace\<close>,
  the regex class \<^verbatim>\<open>\s\<close> and the characters removed by \<^verbatim>\<open>str.strip()\<close> coincide
  (\<open>is_space\<close>), and \<^verbatim>\<open>\w\<close> is \<open>is_word\<close>.
\<close>

datatype py_exception =
    OSError | ValueError | AttributeError | TypeError | UnicodeEncodeError | OtherException

definition is_space :: "char \<Rightarrow> bool" where
  "is_space c =
     (let n = (of_char c :: nat)
      in (9 \<le> n \<and> n \<le> 13) \<or> (28 \<le> n \<and> n \<le> 32) \<or> n = 133 \<or> n = 160)"

definition is_digit :: "char \<Rightarrow> bool" where
  "is_digit c = (let n = (of_char c :: nat) in 48 \<le> n \<and> n \<le> 57)"

definition is_ascii_alnum :: "char \<Rightarrow> bool" where
  "is_ascii_alnum c =
     (let n = (of_char c :: nat)
      in (48 \<le> n \<and> n \<le> 57) \<or> (65 \<le> n \<and> n \<le> 90) \<or> (97 \<le> n \<and> n \<le> 122))"

definition is_word :: "char \<Rightarrow> bool" where
  "is_word c =
     (let n = (of_char c :: nat)
      in is_ascii_alnum c \<or> n = 95 \<or> n = 170 \<or> n = 178 \<or> n = 179 \<or> n = 181 \<or> n = 185
         \<or> n = 186 \<or> (188 \<le> n \<and> n \<le> 190) \<or> (192 \<le> n \<and> n \<le> 214)
         \<or> (216 \<le> n \<and> n \<le> 246) \<or> 248 \<le> n)"

definition py_lower_char :: "char \<Rightarrow> char" where
  "py_lower_char c =
     (let n = (of_char c :: nat)
      in if (65 \<le> n \<and> n \<le> 90) \<or> (192 \<le> n \<and> n \<le> 214) \<or> (216 \<le> n \<and> n \<le> 222)
         then char_of (n + 32) else c)"

definition py_lower :: "string \<Rightarrow> string" where
  "py_lower s = map py_lower_char s"

definition strip :: "string \<Rightarrow> string" where
  "strip s = rev (dropWhile is_space (rev (dropWhile is_space s)))"

definition startswith :: "string \<Rightarrow> string \<Rightarrow> bool" where
  "startswith s p = (take (length p) s = p)"

text \<open>\<^verbatim>\<open>sep.join(xs)\<close>.\<close>

fun join :: "string \<Rightarrow> string list \<Rightarrow> string" where
  "join sep [] = []"
| "join sep [x] = x"
| "join sep (x # y # ys) = x @ sep @ join sep (y # ys)"

section \<open>Regular expressions\<close>

text \<open>
  The patterns of the daemon are sequences of single-character classes with repetition
  bounds, word boundaries, an end anchor and group boundaries.  \<open>mtch\<close> is the backtracking
  matcher of Python's \<^verbatim>\<open>re\<close> on such sequences: a repetition is greedy and gives
  characters back one at a time when the rest of the pattern fails.  It returns the
  suffixes of the subject at the group boundaries (\<open>Mark\<close>) and the suffix after the
  match.  The argument \<open>prev\<close> is the character before the current position.
\<close>

datatype item = Rep "char \<Rightarrow> bool" nat "nat option" | WordB | Eol | Mark

fun greedy ::
  "(char \<Rightarrow> bool) \<Rightarrow> nat \<Rightarrow> nat option \<Rightarrow> (char option \<Rightarrow> string \<Rightarrow> 'a option)
     \<Rightarrow> char option \<Rightarrow> string \<Rightarrow> 'a option" where
  "greedy p lo hi k prev [] = (if lo = 0 then k prev [] else None)"
| "greedy p lo hi k prev (c # cs) =
     (if p c \<and> hi \<noteq> Some 0 then
        (case greedy p (lo - 1) (map_option (\<lambda>h. h - 1) hi) k (Some c) cs of
           Some r \<Rightarrow> Some r
         | None \<Rightarrow> if lo = 0 then k prev (c # cs) else None)
      else if lo = 0 then k prev (c # cs) else None)"

definition word_char_at :: "char option \<Rightarrow> bool" where
  "word_char_at x = (case x of None \<Rightarrow> False | Some c \<Rightarrow> is_word c)"

definition at_boundary :: "char option \<Rightarrow> string \<Rightarrow> bool" where
  "at_boundary prev s =
     (word_char_at prev \<noteq> word_char_at (case s of [] \<Rightarrow> None | c # _ \<Rightarrow> Some c))"

definition at_eol :: "string \<Rightarrow> bool" where
  "at_eol s = (s = [] \<or> s = [CHR 0x0A])"

primrec mtch :: "item list \<Rightarrow> char option \<Rightarrow> string \<Rightarrow> (string list \<times> string) option" where
  "mtch [] = (\<lambda>prev s. Some ([], s))"
| "mtch (i # is) =
     (case i of
        Rep p lo hi \<Rightarrow> greedy p lo hi (mtch is)
      | WordB \<Rightarrow> (\<lambda>prev s. if at_boundary prev s then mtch is prev s else None)
      | Eol \<Rightarrow> (\<lambda>prev s. if at_eol s then mtch is prev s else None)
      | Mark \<Rightarrow> (\<lambda>prev s. map_option (\<lambda>(ms, r). (s # ms, r)) (mtch is prev s)))"

text \<open>
  The replacement templates in use: \<^verbatim>\<open>\1***\<close> (the text of group 1, which ends at the
  first mark, followed by three stars) and a literal.
\<close>

datatype repl = Group1_stars | Literal string

definition expand :: "repl \<Rightarrow> string \<Rightarrow> string list \<Rightarrow> string" where
  "expand r s ms =
     (case r of
        Literal l \<Rightarrow> l
      | Group1_stars \<Rightarrow>
          (case ms of [] \<Rightarrow> ''***'' | m # _ \<Rightarrow> take (length s - length m) s @ ''***''))"

text \<open>
  \<^verbatim>\<open>pattern.sub(repl, s)\<close>: scan from the left, replace each match and go on behind
  it; where nothing matches copy one character.  An empty match is replaced and the scan
  moves on by one character (no pattern of the daemon can match the empty string).
\<close>

fun re_sub_from :: "item list \<Rightarrow> repl \<Rightarrow> char option \<Rightarrow> string \<Rightarrow> string" where
  "re_sub_from pat r prev [] =
     (case mtch pat prev [] of None \<Rightarrow> [] | Some (ms, rest) \<Rightarrow> expand r [] ms)"
| "re_sub_from pat r prev (c # cs) =
     (case mtch pat prev (c # cs) of
        None \<Rightarrow> c # re_sub_from pat r (Some c) cs
      | Some (ms, rest) \<Rightarrow>
          if length rest < length (c # cs) then
            (let matched = take (length (c # cs) - length rest) (c # cs)
             in expand r (c # cs) ms @ re_sub_from pat r (Some (last matched)) rest)
          else expand r (c # cs) ms @ c # re_sub_from pat r (Some c) cs)"

definition re_sub :: "item list \<Rightarrow> repl \<Rightarrow> string \<Rightarrow> string" where
  "re_sub pat r s = re_sub_from pat r None s"

subsection \<open>The patterns\<close>

definition lit :: "char \<Rightarrow> item" where
  "lit c = Rep (\<lambda>x. x = c) 1 (Some 1)"

text \<open>A literal under \<^verbatim>\<open>re.IGNORECASE\<close>; the argument is in lower case.\<close>

definition lit_i :: "char \<Rightarrow> item" where
  "lit_i c = Rep (\<lambda>x. py_lower_char x = c) 1 (Some 1)"

definition secret_value_char :: "char \<Rightarrow> bool" where
  "secret_value_char c = (\<not> is_space c \<and> c \<noteq> CHR 0x22 \<and> c \<noteq> CHR 0x27)"

definition assign_char :: "char \<Rightarrow> bool" where
  "assign_char c = (c = CHR ''='' \<or> c = CHR '':'')"

definition sk_char :: "char \<Rightarrow> bool" where
  "sk_char c = (is_ascii_alnum c \<or> c = CHR ''_'' \<or> c = CHR ''-'')"

text \<open>\<^verbatim>\<open>(keyword\s*[=:]\s*)([^\s"']+)\<close> with \<^verbatim>\<open>re.IGNORECASE\<close>.\<close>

definition assign_pattern :: "item list \<Rightarrow> item list" where
  "assign_pattern keyword =
     keyword @ [Rep is_space 0 None, Rep assign_char 1 (Some 1), Rep is_space 0 None, Mark,
                Rep secret_value_char 1 None]"

text \<open>\<^verbatim>\<open>(--flag\s+)([^\s]+)\<close> with \<^verbatim>\<open>re.IGNORECASE\<close>.\<close>

definition flag_pattern :: "string \<Rightarrow> item list" where
  "flag_pattern flag =
     map lit_i flag @ [Rep is_space 1 None, Mark, Rep (\<lambda>c. \<not> is_space c) 1 None]"

definition SECRET_REPLACEMENTS :: "(item list \<times> repl) list" where
  "SECRET_REPLACEMENTS =
     [ (assign_pattern
          (map lit_i ''api'' @ [Rep (\<lambda>c. c = CHR ''_'' \<or> c = CHR ''-'') 0 (Some 1)]
             @ map lit_i ''key''),
        Group1_stars),
       (assign_pattern (map lit_i ''token''), Group1_stars),
       (assign_pattern (map lit_i ''password''), Group1_stars),
       (flag_pattern ''--api-key'', Group1_stars),
       (flag_pattern ''--token'', Group1_stars),
       ([WordB, lit CHR ''s'', lit CHR ''k'', lit CHR ''-'', Rep sk_char 16 None, WordB],
        Literal ''sk-***'') ]"

text \<open>\<^verbatim>\<open>^:\s*(\d+):\d+;(.*)$\<close>, used with \<^verbatim>\<open>match\<close> (anchored at the start).\<close>

definition SHELL_LINE_RE :: "item list" where
  "SHELL_LINE_RE =
     [lit CHR '':'', Rep is_space 0 None, Mark, Rep is_digit 1 None, Mark, lit CHR '':'',
      Rep is_digit 1 None, lit CHR '';'', Mark, Rep (\<lambda>c. c \<noteq> CHR 0x0A) 0 None, Mark, Eol]"

definition IGNORE_SHELL_CMD_PREFIXES :: "string list" where
  "IGNORE_SHELL_CMD_PREFIXES = [''history'', ''fc '']"

section \<open>The sanitizer\<close>

text \<open>\<^verbatim>\<open>_sanitize_text\<close> (lines 500 to 508).\<close>

definition redact :: "string \<Rightarrow> string" where
  "redact s = foldl (\<lambda>out pr. re_sub (fst pr) (snd pr) out) s SECRET_REPLACEMENTS"

definition sanitize_text :: "string \<Rightarrow> string" where
  "sanitize_text text =
     (if text = [] then []
      else
        let out = strip text;
            out = redact out
        in if length out > 4000 then take 4000 out else out)"



section \<open>Decoded records\<close>

text \<open>
  What \<^verbatim>\<open>json.loads\<close> returns: a Python value.  An object is a \<^verbatim>\<open>dict\<close> (unique
  keys, as an association list); \<^verbatim>\<open>True\<close> and \<^verbatim>\<open>False\<close> are instances of
  \<^verbatim>\<open>int\<close>, which \<open>extract_sid\<close> has to respect.
\<close>

datatype json =
    JNull
  | JBool bool
  | JInt int
  | JFloat real
  | JStr string
  | JList "json list"
  | JObj "(string \<times> json) list"

text \<open>\<^verbatim>\<open>str(n)\<close> for an integer.\<close>

definition digit_char :: "nat \<Rightarrow> char" where
  "digit_char d = char_of (48 + d)"

fun str_nat_fuel :: "nat \<Rightarrow> nat \<Rightarrow> string" where
  "str_nat_fuel 0 n = []"
| "str_nat_fuel (Suc f) n =
     (if n < 10 then [digit_char n] else str_nat_fuel f (n div 10) @ [digit_char (n mod 10)])"

definition str_nat :: "nat \<Rightarrow> string" where
  "str_nat n = str_nat_fuel (Suc n) n"

definition str_int :: "int \<Rightarrow> string" where
  "str_int i = (if i < 0 then CHR ''-'' # str_nat (nat (- i)) else str_nat (nat i))"

text \<open>\<^verbatim>\<open>data.get(key)\<close> on a value: only a \<^verbatim>\<open>dict\<close> has the method.\<close>

definition json_get :: "json \<Rightarrow> string \<Rightarrow> py_exception + json option" where
  "json_get data key =
     (case data of JObj kvs \<Rightarrow> Inr (map_of kvs key) | _ \<Rightarrow> Inl AttributeError)"

text \<open>\<^verbatim>\<open>_extract_sid\<close> (lines 443 to 448).\<close>

fun extract_sid :: "json \<Rightarrow> string list \<Rightarrow> string \<Rightarrow> py_exception + string" where
  "extract_sid data [] source_name = Inr (source_name @ ''_default'')"
| "extract_sid data (key # keys) source_name =
     (case json_get data key of
        Inl ex \<Rightarrow> Inl ex
      | Inr val \<Rightarrow>
          (case val of
             Some (JStr s) \<Rightarrow> if strip s \<noteq> [] then Inr s else extract_sid data keys source_name
           | Some (JInt i) \<Rightarrow> Inr (str_int i)
           | Some (JBool b) \<Rightarrow> Inr (if b then ''True'' else ''False'')
           | _ \<Rightarrow> extract_sid data keys source_name))"

text \<open>\<^verbatim>\<open>_extract_text\<close> (lines 450 to 470): first the key probe, then the \<^verbatim>\<open>parts\<close> fallback.\<close>

fun probe_text_keys :: "json \<Rightarrow> string list \<Rightarrow> py_exception + string option" where
  "probe_text_keys data [] = Inr None"
| "probe_text_keys data (key # keys) =
     (case json_get data key of
        Inl ex \<Rightarrow> Inl ex
      | Inr val \<Rightarrow>
          (case val of
             Some (JStr s) \<Rightarrow> if strip s \<noteq> [] then Inr (Some (strip s)) else probe_text_keys data keys
           | _ \<Rightarrow> probe_text_keys data keys))"

fun text_parts :: "json list \<Rightarrow> string list" where
  "text_parts [] = []"
| "text_parts (part # parts) =
     (case part of
        JObj kvs \<Rightarrow>
          (if map_of kvs ''type'' = Some (JStr ''text'') then
             (case map_of kvs ''text'' of
                Some (JStr ptext) \<Rightarrow>
                  if strip ptext \<noteq> [] then strip ptext # text_parts parts else text_parts parts
              | _ \<Rightarrow> text_parts parts)
           else text_parts parts)
      | _ \<Rightarrow> text_parts parts)"

definition extract_text :: "json \<Rightarrow> string list \<Rightarrow> py_exception + string" where
  "extract_text data keys =
     (case probe_text_keys data keys of
        Inl ex \<Rightarrow> Inl ex
      | Inr (Some s) \<Rightarrow> Inr s
      | Inr None \<Rightarrow>
          (case json_get data ''parts'' of
             Inl ex \<Rightarrow> Inl ex
           | Inr (Some (JList parts)) \<Rightarrow>
               (let tp = text_parts parts
                in if tp \<noteq> [] then
                     (let prefix = (case json_get data ''input'' of
                                      Inr (Some (JStr s)) \<Rightarrow> s | _ \<Rightarrow> [])
                      in if strip prefix \<noteq> []
                         then Inr (strip prefix @ [CHR 0x0A] @ join [CHR 0x0A] tp)
                         else Inr (join [CHR 0x0A] tp))
                   else Inr [])
           | Inr _ \<Rightarrow> Inr []))"

text \<open>\<^verbatim>\<open>JSONL_SOURCES\<close> (lines 55 to 99); \<open>home\<close> is \<^verbatim>\<open>Path.home()\<close>.\<close>

definition JSONL_SOURCES :: "string \<Rightarrow> (string \<times> source_cfg list) list" where
  "JSONL_SOURCES home =
     [ (''claude_code'',
        [\<lparr>path = home @ ''/.claude/history.jsonl'',
          sid_keys = [''sessionId'', ''session_id''],
          text_keys = [''display'', ''text'', ''input'', ''prompt'']\<rparr>]),
       (''codex_history'',
        [\<lparr>path = home @ ''/.codex/history.jsonl'',
          sid_keys = [''session_id'', ''sessionId'', ''id''],
          text_keys = [''text'', ''input'', ''prompt'']\<rparr>]),
       (''opencode'',
        [\<lparr>path = home @ ''/.local/state/opencode/prompt-history.jsonl'',
          sid_keys = [''session_id'', ''sessionId'', ''id''],
          text_keys = [''input'', ''prompt'', ''text'']\<rparr>,
         \<lparr>path = home @ ''/.config/opencode/prompt-history.jsonl'',
          sid_keys = [''session_id'', ''sessionId'', ''id''],
          text_keys = [''input'', ''prompt'', ''text'']\<rparr>,
         \<lparr>path = home @ ''/.opencode/prompt-history.jsonl'',
          sid_keys = [''session_id'', ''sessionId'', ''id''],
          text_keys = [''input'', ''prompt'', ''text'']\<rparr>]),
       (''kilo'',
        [\<lparr>path = home @ ''/.local/state/kilo/prompt-history.jsonl'',
          sid_keys = [''session_id'', ''sessionId'', ''id''],
          text_keys = [''input'', ''prompt'', ''text'']\<rparr>,
         \<lparr>path = home @ ''/.config/kilo/prompt-history.jsonl'',
          sid_keys = [''session_id'', ''sessionId'', ''id''],
          text_keys = [''input'', ''prompt'', ''text'']\<rparr>]) ]"

text \<open>The record of the schema-variance scenario, as \<^verbatim>\<open>json.loads\<close> decodes it.\<close>

definition opencode_record :: json where
  "opencode_record =
     JObj [ (''id'', JStr ''x''),
            (''parts'', JList [ JObj [(''type'', JStr ''text''), (''text'', JStr ''a'')],
                               JObj [(''type'', JStr ''other''), (''text'', JStr ''z'')],
                               JObj [(''type'', JStr ''text''), (''text'', JStr ''b'')] ]),
            (''input'', JStr ''pre'') ]"

text \<open>The candidates that \<^verbatim>\<open>JSONL_SOURCES\<close> lists for a source.\<close>

definition candidates :: "string \<Rightarrow> string \<Rightarrow> source_cfg list" where
  "candidates home source_name =
     (case map_of (JSONL_SOURCES home) source_name of None \<Rightarrow> [] | Some cs \<Rightarrow> cs)"

section \<open>Session management\<close>

text \<open>
  \<^verbatim>\<open>min(items, key=f)\<close>: the first element whose key is least;
  \<^verbatim>\<open>ValueError\<close> on an empty sequence.
\<close>

fun min_by_from :: "('a \<Rightarrow> real) \<Rightarrow> 'a \<Rightarrow> 'a list \<Rightarrow> 'a" where
  "min_by_from f best [] = best"
| "min_by_from f best (x # xs) = (if f x < f best then min_by_from f x xs else min_by_from f best xs)"

definition min_by :: "('a \<Rightarrow> real) \<Rightarrow> 'a list \<Rightarrow> py_exception + 'a" where
  "min_by f xs = (case xs of [] \<Rightarrow> Inl ValueError | x # rest \<Rightarrow> Inr (min_by_from f x rest))"

text \<open>
  \<^verbatim>\<open>_evict_oldest\<close> (lines 537 to 544).  The second \<^verbatim>\<open>min\<close> of the source runs over
  the keys with the key function \<^verbatim>\<open>sessions[k]["last_seen"]\<close>; over the items that is
  the same choice.
\<close>

definition evict_oldest :: "(string \<times> session) list \<Rightarrow> py_exception + (string \<times> session) list" where
  "evict_oldest ss =
     (let exported_items = filter (\<lambda>kv. exported (snd kv)) ss
      in if exported_items \<noteq> [] then
           (case min_by (\<lambda>kv. last_seen (snd kv)) exported_items of
              Inl ex \<Rightarrow> Inl ex | Inr kv \<Rightarrow> Inr (dict_del ss (fst kv)))
         else
           (case min_by (\<lambda>kv. last_seen (snd kv)) ss of
              Inl ex \<Rightarrow> Inl ex | Inr kv \<Rightarrow> Inr (dict_del ss (fst kv))))"

text \<open>\<^verbatim>\<open>xs[-n:]\<close> for a positive \<open>n\<close>.\<close>

definition last_n :: "nat \<Rightarrow> 'a list \<Rightarrow> 'a list" where
  "last_n n xs = drop (length xs - n) xs"

text \<open>
  \<^verbatim>\<open>_upsert_session\<close> (lines 511 to 535).  \<open>md5\<close> stands for
  \<^verbatim>\<open>hashlib.md5(text.encode("utf-8")).hexdigest()\<close>, which raises
  \<^verbatim>\<open>UnicodeEncodeError\<close> when the text cannot be encoded (a lone surrogate, which
  \<^verbatim>\<open>json.loads\<close> delivers for an escape such as \<^verbatim>\<open>\ud800\<close>).  An exception is
  returned with the tracker as the method left it: unchanged when the eviction raises
  (\<^verbatim>\<open>ValueError\<close> on an empty table, line 539 or 543), and with the eviction and the
  new entry of lines 513 to 522 already made when the encoding of line 525 raises.
\<close>

definition new_session :: "string \<Rightarrow> real \<Rightarrow> session" where
  "new_session src now =
     \<lparr> last_seen = now, messages = [], exported = False, source = src, created = now,
       last_hash = [] \<rparr>"

definition upsert_session ::
  "(string \<Rightarrow> py_exception + string) \<Rightarrow> environ \<Rightarrow> string \<Rightarrow> string \<Rightarrow> string \<Rightarrow> real
     \<Rightarrow> tracker \<Rightarrow> py_exception \<times> tracker + tracker" where
  "upsert_session md5 e sid src text now t =
     (case (if dict_get (sessions t) sid \<noteq> None then Inr (sessions t)
            else
              (case (if int (length (sessions t)) \<ge> MAX_TRACKED_SESSIONS e
                     then evict_oldest (sessions t) else Inr (sessions t)) of
                 Inl ex \<Rightarrow> Inl ex
               | Inr ss \<Rightarrow> Inr (dict_set ss sid (new_session src now)))) of
        Inl ex \<Rightarrow> Inl (ex, t)
      | Inr ss \<Rightarrow>
          (case dict_get ss sid of
             None \<Rightarrow> Inl (OtherException, t\<lparr>sessions := ss\<rparr>)
           | Some sess \<Rightarrow>
               (case md5 text of
                  Inl ex \<Rightarrow> Inl (ex, t\<lparr>sessions := ss\<rparr>)
                | Inr digest \<Rightarrow>
                    if digest = last_hash sess then Inr (t\<lparr>sessions := ss\<rparr>)
                    else
                      (let msgs = messages sess @ [text];
                           msgs = (if int (length msgs) > MAX_MESSAGES_PER_SESSION e
                                   then last_n 200 msgs else msgs)
                       in Inr (t\<lparr>sessions :=
                                    dict_set ss sid
                                      (sess\<lparr>messages := msgs, last_hash := digest, last_seen := now\<rparr>),
                                  last_activity_ts := now\<rparr>)))))"

section \<open>The idle sweep\<close>

text \<open>
  \<^verbatim>\<open>_export\<close> (lines 579 to 635) acts on the file system and the remote index.  For
  the sweep only its outcome counts: it returns \<^verbatim>\<open>True\<close> (synced, the export counter
  goes up), returns \<^verbatim>\<open>False\<close> (local write failed or the artifact was queued), or
  raises (\<^verbatim>\<open>mkdir\<close> and the path or text encoding lie outside its \<^verbatim>\<open>try\<close> blocks;
  all of them come before the artifact is written).
\<close>

datatype export_outcome = ExportTrue | ExportFalse | ExportRaises

record sweep_result =
  swept :: "(string \<times> session) list"
  to_remove :: "string list"
  export_calls :: "(string \<times> export_outcome) list"
  raised :: bool

definition min_messages :: "string \<Rightarrow> nat" where
  "min_messages src = (if startswith src ''shell_'' then 4 else 2)"

text \<open>
  The loop of \<^verbatim>\<open>check_and_export_idle\<close> (lines 550 to 564) over the items of
  \<^verbatim>\<open>self.sessions\<close>; an exception of \<^verbatim>\<open>_export\<close> ends it at once.
\<close>

fun sweep_items ::
  "environ \<Rightarrow> real \<Rightarrow> (string \<Rightarrow> session \<Rightarrow> export_outcome) \<Rightarrow> (string \<times> session) list
     \<Rightarrow> sweep_result" where
  "sweep_items e now ex [] = \<lparr>swept = [], to_remove = [], export_calls = [], raised = False\<rparr>"
| "sweep_items e now ex ((sid, d) # rest) =
     (if exported d then
        (let r = sweep_items e now ex rest
         in r\<lparr>swept := (sid, d) # swept r,
              to_remove := (if now - last_seen d > real_of_int (SESSION_TTL_SEC e)
                            then sid # to_remove r else to_remove r)\<rparr>)
      else if now - last_seen d \<le> real_of_int (IDLE_TIMEOUT_SEC e) then
        (let r = sweep_items e now ex rest in r\<lparr>swept := (sid, d) # swept r\<rparr>)
      else if length (messages d) \<ge> min_messages (source d) then
        (case ex sid d of
           ExportRaises \<Rightarrow>
             \<lparr>swept = (sid, d) # rest, to_remove = [], export_calls = [(sid, ExportRaises)],
              raised = True\<rparr>
         | outcome \<Rightarrow>
             (let r = sweep_items e now ex rest
              in r\<lparr>swept := (sid, d\<lparr>exported := True\<rparr>) # swept r,
                   export_calls := (sid, outcome) # export_calls r\<rparr>))
      else
        (let r = sweep_items e now ex rest
         in r\<lparr>swept := (sid, d\<lparr>exported := True\<rparr>) # swept r\<rparr>))"

text \<open>
  \<^verbatim>\<open>check_and_export_idle\<close> (lines 546 to 567): the expired entries are deleted after
  the loop, unless an exception ended it.  The second component lists the calls of
  \<^verbatim>\<open>_export\<close> in order.
\<close>

definition check_and_export_idle ::
  "environ \<Rightarrow> real \<Rightarrow> (string \<Rightarrow> session \<Rightarrow> export_outcome) \<Rightarrow> tracker
     \<Rightarrow> tracker \<times> (string \<times> export_outcome) list" where
  "check_and_export_idle e now ex t =
     (let r = sweep_items e now ex (sessions t);
          n = length (filter (\<lambda>c. snd c = ExportTrue) (export_calls r));
          ss = (if raised r then swept r else foldl dict_del (swept r) (to_remove r))
      in (t\<lparr>sessions := ss, export_count := export_count t + n\<rparr>, export_calls r))"

text \<open>The exports of one session that ran to their end.\<close>

definition completed_exports :: "string \<Rightarrow> (string \<times> export_outcome) list \<Rightarrow> nat" where
  "completed_exports sid calls =
     length (filter (\<lambda>c. fst c = sid \<and> snd c \<noteq> ExportRaises) calls)"

section \<open>The scheduler\<close>

text \<open>\<^verbatim>\<open>int(x)\<close> of a float truncates towards zero.\<close>

definition py_int :: "real \<Rightarrow> int" where
  "py_int x = (if 0 \<le> x then floor x else ceiling x)"

fun nearest_due_loop :: "environ \<Rightarrow> real \<Rightarrow> session list \<Rightarrow> real option \<Rightarrow> real option" where
  "nearest_due_loop e now [] nearest_due = nearest_due"
| "nearest_due_loop e now (d # ds) nearest_due =
     (if exported d then nearest_due_loop e now ds nearest_due
      else
        (let remaining = real_of_int (IDLE_TIMEOUT_SEC e) - (now - last_seen d)
         in case nearest_due of
              None \<Rightarrow> nearest_due_loop e now ds (Some remaining)
            | Some nd \<Rightarrow>
                if remaining < nd then nearest_due_loop e now ds (Some remaining)
                else nearest_due_loop e now ds (Some nd)))"

text \<open>
  \<^verbatim>\<open>next_sleep_interval\<close> (lines 679 to 707).  \<open>pending\<close> is the outcome of the outbox
  probe \<^verbatim>\<open>PENDING_DIR.exists() and any(PENDING_DIR.glob("*.md"))\<close>: its value, or
  \<open>None\<close> when it raised (the source then passes).
\<close>

definition next_sleep_interval :: "environ \<Rightarrow> bool option \<Rightarrow> real \<Rightarrow> tracker \<Rightarrow> int" where
  "next_sleep_interval e pending now t =
     (let sleep_s = max 1 (POLL_INTERVAL_SEC e);
          sleep_s = (if pending = Some True then min sleep_s (FAST_POLL_INTERVAL_SEC e) else sleep_s);
          nearest_due = nearest_due_loop e now (map snd (sessions t)) None;
          sleep_s =
            (case nearest_due of
               None \<Rightarrow> sleep_s
             | Some nd \<Rightarrow>
                 if nd \<le> real_of_int (FAST_POLL_INTERVAL_SEC e)
                 then min sleep_s (FAST_POLL_INTERVAL_SEC e)
                 else if nd < real_of_int sleep_s then min sleep_s (max 1 (py_int nd))
                 else sleep_s);
          sleep_s =
            (if last_activity_ts t \<noteq> 0
                \<and> now - last_activity_ts t < real_of_int (max 15 (FAST_POLL_INTERVAL_SEC e * 4))
             then min sleep_s (FAST_POLL_INTERVAL_SEC e) else sleep_s)
      in max 1 sleep_s)"

text \<open>A configuration with \<^verbatim>\<open>VIKING_POLL_INTERVAL_SEC=0\<close>.\<close>

definition poll_0_environ :: environ where
  "poll_0_environ = default_environ\<lparr>VIKING_POLL_INTERVAL_SEC := 0\<rparr>"

text \<open>A tracker with one session that was last seen 298 seconds before the time 1000.\<close>

definition tracker_near_idle :: tracker where
  "tracker_near_idle =
     empty_tracker\<lparr>sessions :=
       [(''s1'', \<lparr>last_seen = 702, messages = [''hello'', ''world''], exported = False,
                  source = ''claude_code'', created = 700, last_hash = ''h''\<rparr>)]\<rparr>"

section \<open>Sessions that await their export\<close>

text \<open>1 if the session is in the table and its exported flag is not set, else 0.\<close>

definition awaiting :: "string \<Rightarrow> (string \<times> session) list \<Rightarrow> nat" where
  "awaiting sid ss =
     (case dict_get ss sid of None \<Rightarrow> 0 | Some d \<Rightarrow> if exported d then 0 else 1)"

text \<open>
  Two behaviours of \<^verbatim>\<open>_export\<close>: the local write fails with an \<^verbatim>\<open>OSError\<close>,
  which the handler of lines 602 to 604 turns into the result \<^verbatim>\<open>False\<close>; and an
  exception leaves the method.  The last happens when
  \<^verbatim>\<open>local_dir.mkdir\<close> (line 589, outside every \<^verbatim>\<open>try\<close>) fails, and when the
  session id holds a lone surrogate (a JSON escape such as \<^verbatim>\<open>\ud800\<close> in the id of a
  record): the id is part of the file name and of the title, so \<^verbatim>\<open>write_text\<close>
  raises \<^verbatim>\<open>UnicodeEncodeError\<close>, which \<^verbatim>\<open>except OSError\<close> does not catch.
\<close>

definition write_fails :: "string \<Rightarrow> session \<Rightarrow> export_outcome" where
  "write_fails sid d = ExportFalse"

definition export_raises :: "string \<Rightarrow> session \<Rightarrow> export_outcome" where
  "export_raises sid d = ExportRaises"

text \<open>
  A tracker with two sessions: \<open>s1\<close> with two messages, last seen at 702, and behind it
  \<open>s2\<close> with one message, last seen at 600.  At the time 1003 both have been idle for
  more than the 300 seconds of the idle timeout.
\<close>

definition session_s1 :: session where
  "session_s1 =
     \<lparr>last_seen = 702, messages = [''hello'', ''world''], exported = False,
      source = ''claude_code'', created = 700, last_hash = ''h''\<rparr>"

definition session_s2 :: session where
  "session_s2 =
     \<lparr>last_seen = 600, messages = [''bye''], exported = False,
      source = ''claude_code'', created = 600, last_hash = ''g''\<rparr>"

definition tracker_two :: tracker where
  "tracker_two = empty_tracker\<lparr>sessions := [(''s1'', session_s1), (''s2'', session_s2)]\<rparr>"

section \<open>The tailers\<close>

text \<open>
  What a pass sees of the outside world.  \<open>getsize\<close> and \<open>getmtime\<close> are \<open>None\<close> when
  the call raises \<^verbatim>\<open>OSError\<close>.  \<open>read_lines path offset\<close> is what
  \<^verbatim>\<open>open\<close>, \<^verbatim>\<open>f.seek(offset)\<close> and the iteration over the file deliver: the lines
  read, and whether an exception ended the reading (a failing \<^verbatim>\<open>open\<close> is no line and
  \<open>True\<close>).  \<open>json_loads\<close>, \<open>md5_hex\<close> and \<open>local_day\<close> stand for
  \<^verbatim>\<open>json.loads\<close>, \<^verbatim>\<open>hashlib.md5(s.encode("utf-8")).hexdigest()\<close> and
  \<^verbatim>\<open>datetime.fromtimestamp(ts).strftime("%Y%m%d")\<close>; \<open>utf8_encodes s\<close> tells
  whether \<^verbatim>\<open>s.encode("utf-8")\<close> returns for an extracted text (it raises on a lone
  surrogate, which the characters of this model do not show).
\<close>

datatype loads_result = Decoded json | JSONDecodeError | LoadsRaises

record world =
  getsize :: "string \<Rightarrow> nat option"
  getmtime :: "string \<Rightarrow> real option"
  read_lines :: "string \<Rightarrow> nat \<Rightarrow> string list \<times> bool"
  json_loads :: "string \<Rightarrow> loads_result"
  md5_hex :: "string \<Rightarrow> string"
  utf8_encodes :: "string \<Rightarrow> bool"
  local_day :: "int \<Rightarrow> py_exception + string"
  codex_isdir :: bool
  codex_glob :: "string list option"

text \<open>\<^verbatim>\<open>_cursor_key\<close> (lines 243 to 245).\<close>

definition cursor_key :: "world \<Rightarrow> string \<Rightarrow> string \<Rightarrow> string \<Rightarrow> string" where
  "cursor_key w kind source_name p =
     kind @ '':'' @ source_name @ '':'' @ take 10 (md5_hex w p)"

text \<open>The digest of line 525 for an extracted text.\<close>

definition text_digest :: "world \<Rightarrow> string \<Rightarrow> py_exception + string" where
  "text_digest w s = (if utf8_encodes w s then Inr (md5_hex w s) else Inl UnicodeEncodeError)"

text \<open>
  The body of a \<^verbatim>\<open>for line in f\<close> loop: an exception of the handler ends it, with
  the tracker as the handler left it.
\<close>

fun process_lines ::
  "(string \<Rightarrow> tracker \<Rightarrow> py_exception \<times> tracker + tracker) \<Rightarrow> string list \<Rightarrow> tracker
     \<Rightarrow> tracker \<times> bool" where
  "process_lines handle [] t = (t, True)"
| "process_lines handle (l # ls) t =
     (case handle l t of Inl (ex, t') \<Rightarrow> (t', False) | Inr t' \<Rightarrow> process_lines handle ls t')"

text \<open>
  The protocol that the three tailers share, written out three times in the source:
  \<^verbatim>\<open>_poll_jsonl_file\<close> (lines 256 to 291), the loop body of
  \<^verbatim>\<open>poll_shell_sources\<close> (lines 299 to 324) and the loop body of
  \<^verbatim>\<open>poll_codex_sessions\<close> (lines 345 to 393).  \<open>handle\<close> is what is done with one
  line, \<open>label\<close> the text of the error message.
\<close>

definition tail_file ::
  "world \<Rightarrow> string \<Rightarrow> string \<Rightarrow> string
     \<Rightarrow> (string \<Rightarrow> tracker \<Rightarrow> py_exception \<times> tracker + tracker) \<Rightarrow> tracker \<Rightarrow> tracker" where
  "tail_file w p ckey label handle t =
     (case getsize w p of
        None \<Rightarrow> t
      | Some cur_size \<Rightarrow>
          (let last = (case dict_get (file_cursors t) ckey of None \<Rightarrow> cur_size | Some c \<Rightarrow> c);
               last = (if cur_size < last then 0 else last)
           in if cur_size \<le> last then t\<lparr>file_cursors := dict_set (file_cursors t) ckey cur_size\<rparr>
              else
                (case read_lines w p last of
                   (lines, read_failed) \<Rightarrow>
                     (case process_lines handle lines t of
                        (t', handled) \<Rightarrow>
                          if handled \<and> \<not> read_failed
                          then t'\<lparr>file_cursors := dict_set (file_cursors t') ckey cur_size\<rparr>
                          else t'\<lparr>error_count := error_count t' + 1,
                                  error_log := error_log t' @ [label]\<rparr>))))"

subsection \<open>JSONL history\<close>

text \<open>The loop body of \<^verbatim>\<open>_poll_jsonl_file\<close> (lines 272 to 286).\<close>

definition jsonl_line ::
  "world \<Rightarrow> environ \<Rightarrow> string \<Rightarrow> source_cfg \<Rightarrow> real \<Rightarrow> string \<Rightarrow> tracker
     \<Rightarrow> py_exception \<times> tracker + tracker" where
  "jsonl_line w e source_name src now line t =
     (let line = strip line
      in if line = [] then Inr t
         else
           (case json_loads w line of
              JSONDecodeError \<Rightarrow> Inr t
            | LoadsRaises \<Rightarrow> Inl (OtherException, t)
            | Decoded data \<Rightarrow>
                (case extract_sid data (sid_keys src) source_name of
                   Inl ex \<Rightarrow> Inl (ex, t)
                 | Inr sid \<Rightarrow>
                     (case extract_text data (text_keys src) of
                        Inl ex \<Rightarrow> Inl (ex, t)
                      | Inr text \<Rightarrow>
                          (let text = sanitize_text text
                           in if text = [] then Inr t
                              else upsert_session (text_digest w) e sid source_name text now t)))))"

definition poll_jsonl_file ::
  "world \<Rightarrow> environ \<Rightarrow> string \<Rightarrow> string \<Rightarrow> source_cfg \<Rightarrow> string \<Rightarrow> real \<Rightarrow> tracker \<Rightarrow> tracker" where
  "poll_jsonl_file w e source_name p src ckey now t =
     tail_file w p ckey (''poll_jsonl_sources('' @ source_name @ '')'')
       (jsonl_line w e source_name src now) t"

text \<open>\<^verbatim>\<open>poll_jsonl_sources\<close> (lines 248 to 253).\<close>

definition poll_jsonl_sources :: "world \<Rightarrow> environ \<Rightarrow> real \<Rightarrow> tracker \<Rightarrow> tracker" where
  "poll_jsonl_sources w e now t =
     foldl (\<lambda>t' (source_name, src).
              poll_jsonl_file w e source_name (path src) src
                (cursor_key w ''jsonl'' source_name (path src)) now t')
       t (active_jsonl t)"

subsection \<open>Shell history\<close>

fun int_of_digits :: "string \<Rightarrow> int \<Rightarrow> int" where
  "int_of_digits [] acc = acc"
| "int_of_digits (c # cs) acc = int_of_digits cs (10 * acc + (int (of_char c) - 48))"

text \<open>The text between two positions of a match, given as suffixes of the subject.\<close>

definition between :: "string \<Rightarrow> string \<Rightarrow> string" where
  "between from_suffix to_suffix = take (length from_suffix - length to_suffix) from_suffix"

text \<open>
  \<^verbatim>\<open>_parse_shell_line\<close> (lines 472 to 498).  \<open>now\<close> is the \<^verbatim>\<open>time.time()\<close> of the
  call.  Recent Python versions refuse to convert more than 4300 digits to an
  \<^verbatim>\<open>int\<close>; \<^verbatim>\<open>fromtimestamp\<close> raises outside the platform's range.
\<close>

definition parse_shell_line ::
  "world \<Rightarrow> real \<Rightarrow> string \<Rightarrow> string \<Rightarrow> py_exception + (string \<times> string) option" where
  "parse_shell_line w now source_name raw_line =
     (let line = strip raw_line
      in if line = [] then Inr None
         else
           (case (case mtch SHELL_LINE_RE None line of
                    Some ([g1, g1_end, g2, g2_end], rest) \<Rightarrow>
                      (if length (between g1 g1_end) > 4300 then Inl ValueError
                       else Inr (int_of_digits (between g1 g1_end) 0, strip (between g2 g2_end)))
                  | _ \<Rightarrow> Inr (py_int now, line)) of
              Inl ex \<Rightarrow> Inl ex
            | Inr (ts, cmd) \<Rightarrow>
                if cmd = [] then Inr None
                else if list_ex (startswith (py_lower cmd)) IGNORE_SHELL_CMD_PREFIXES then Inr None
                else
                  (let cmd = sanitize_text cmd
                   in if cmd = [] then Inr None
                      else
                        (case local_day w ts of
                           Inl ex \<Rightarrow> Inl ex
                         | Inr day \<Rightarrow> Inr (Some (source_name @ ''_'' @ day, cmd))))))"

definition shell_line ::
  "world \<Rightarrow> environ \<Rightarrow> string \<Rightarrow> real \<Rightarrow> string \<Rightarrow> tracker
     \<Rightarrow> py_exception \<times> tracker + tracker" where
  "shell_line w e source_name now line t =
     (case parse_shell_line w now source_name line of
        Inl ex \<Rightarrow> Inl (ex, t)
      | Inr None \<Rightarrow> Inr t
      | Inr (Some (sid, text)) \<Rightarrow> upsert_session (text_digest w) e sid source_name text now t)"

text \<open>One round of the loop of \<^verbatim>\<open>poll_shell_sources\<close> (lines 299 to 324).\<close>

definition poll_shell_source ::
  "world \<Rightarrow> environ \<Rightarrow> string \<Rightarrow> string \<Rightarrow> real \<Rightarrow> tracker \<Rightarrow> tracker" where
  "poll_shell_source w e source_name p now t =
     tail_file w p (cursor_key w ''shell'' source_name p)
       (''poll_shell_sources('' @ source_name @ '')'') (shell_line w e source_name now) t"

definition poll_shell_sources :: "world \<Rightarrow> environ \<Rightarrow> real \<Rightarrow> tracker \<Rightarrow> tracker" where
  "poll_shell_sources w e now t =
     (if \<not> ENABLE_SHELL_MONITOR e then t
      else foldl (\<lambda>t' (source_name, p). poll_shell_source w e source_name p now t')
             t (active_shell t))"

subsection \<open>Codex session files\<close>

text \<open>Python's truth value of a decoded value.\<close>

definition truthy :: "json \<Rightarrow> bool" where
  "truthy v =
     (case v of
        JNull \<Rightarrow> False | JBool b \<Rightarrow> b | JInt i \<Rightarrow> i \<noteq> 0 | JFloat x \<Rightarrow> x \<noteq> 0
      | JStr s \<Rightarrow> s \<noteq> [] | JList xs \<Rightarrow> xs \<noteq> [] | JObj kvs \<Rightarrow> kvs \<noteq> [])"

text \<open>
  The list comprehension of lines 376 to 380: \<^verbatim>\<open>c.get("text", "")\<close> for the elements
  \<open>c\<close> of the content whose \<^verbatim>\<open>c.get("type")\<close> is \<^verbatim>\<open>"output_text"\<close>.
\<close>

fun output_texts :: "json list \<Rightarrow> py_exception + json list" where
  "output_texts [] = Inr []"
| "output_texts (c # cs) =
     (case c of
        JObj kvs \<Rightarrow>
          (case output_texts cs of
             Inl ex \<Rightarrow> Inl ex
           | Inr ts \<Rightarrow>
               if map_of kvs ''type'' = Some (JStr ''output_text'')
               then Inr ((case map_of kvs ''text'' of None \<Rightarrow> JStr [] | Some v \<Rightarrow> v) # ts)
               else Inr ts)
      | _ \<Rightarrow> Inl AttributeError)"

text \<open>Iterating over the content: a list yields its elements, a dict its keys, a string its characters.\<close>

definition iterate :: "json \<Rightarrow> py_exception + json list" where
  "iterate v =
     (case v of
        JList xs \<Rightarrow> Inr xs
      | JObj kvs \<Rightarrow> Inr (map (\<lambda>kv. JStr (fst kv)) kvs)
      | JStr s \<Rightarrow> Inr (map (\<lambda>c. JStr [c]) s)
      | _ \<Rightarrow> Inl TypeError)"

text \<open>\<^verbatim>\<open>"\n".join(t for t in texts if t)\<close>: a true value that is no string raises.\<close>

fun join_truthy :: "json list \<Rightarrow> py_exception + string list" where
  "join_truthy [] = Inr []"
| "join_truthy (v # vs) =
     (if \<not> truthy v then join_truthy vs
      else
        (case v of
           JStr s \<Rightarrow> (case join_truthy vs of Inl ex \<Rightarrow> Inl ex | Inr ss \<Rightarrow> Inr (s # ss))
         | _ \<Rightarrow> Inl TypeError))"

text \<open>\<^verbatim>\<open>_sanitize_text\<close> on a value that need not be a string.\<close>

definition sanitize_value :: "json \<Rightarrow> py_exception + string" where
  "sanitize_value v =
     (if \<not> truthy v then Inr []
      else (case v of JStr s \<Rightarrow> Inr (sanitize_text s) | _ \<Rightarrow> Inl AttributeError))"

definition basename :: "string \<Rightarrow> string" where
  "basename p = rev (takeWhile (\<lambda>c. c \<noteq> CHR ''/'') (rev p))"

text \<open>Lines 370 to 383: the text of a decoded line, or \<open>None\<close> where the source continues.\<close>

definition codex_text :: "json \<Rightarrow> py_exception + json option" where
  "codex_text data =
     (case json_get data ''type'' of
        Inl ex \<Rightarrow> Inl ex
      | Inr ty \<Rightarrow>
          if ty \<noteq> Some (JStr ''response_item'') then Inr None
          else
            (let payload = (case data of
                              JObj kvs \<Rightarrow> (case map_of kvs ''payload'' of None \<Rightarrow> JObj [] | Some v \<Rightarrow> v)
                            | _ \<Rightarrow> JObj [])
             in case json_get payload ''type'' of
                  Inl ex \<Rightarrow> Inl ex
                | Inr ptype \<Rightarrow>
                    if ptype = Some (JStr ''message'') then
                      (case iterate (case json_get payload ''content'' of
                                       Inr (Some v) \<Rightarrow> v | _ \<Rightarrow> JList []) of
                         Inl ex \<Rightarrow> Inl ex
                       | Inr content \<Rightarrow>
                           (case output_texts content of
                              Inl ex \<Rightarrow> Inl ex
                            | Inr texts \<Rightarrow>
                                (case join_truthy texts of
                                   Inl ex \<Rightarrow> Inl ex
                                 | Inr ss \<Rightarrow> Inr (Some (JStr (join [CHR 0x0A] ss))))))
                    else if ptype = Some (JStr ''reasoning'') then
                      Inr (Some (case json_get payload ''text'' of
                                   Inr (Some v) \<Rightarrow> v | _ \<Rightarrow> JStr []))
                    else Inr (Some (JStr []))))"

definition codex_line ::
  "world \<Rightarrow> environ \<Rightarrow> string \<Rightarrow> real \<Rightarrow> string \<Rightarrow> tracker
     \<Rightarrow> py_exception \<times> tracker + tracker" where
  "codex_line w e p now line t =
     (let line = strip line
      in if line = [] then Inr t
         else
           (case json_loads w line of
              JSONDecodeError \<Rightarrow> Inr t
            | LoadsRaises \<Rightarrow> Inl (OtherException, t)
            | Decoded data \<Rightarrow>
                (case codex_text data of
                   Inl ex \<Rightarrow> Inl (ex, t)
                 | Inr None \<Rightarrow> Inr t
                 | Inr (Some v) \<Rightarrow>
                     (case sanitize_value v of
                        Inl ex \<Rightarrow> Inl (ex, t)
                      | Inr text \<Rightarrow>
                          if text = [] then Inr t
                          else upsert_session (text_digest w) e (basename p) ''codex_session'' text now t))))"

text \<open>One round of the loop of \<^verbatim>\<open>poll_codex_sessions\<close> (lines 337 to 393).\<close>

definition poll_codex_file :: "world \<Rightarrow> environ \<Rightarrow> string \<Rightarrow> real \<Rightarrow> tracker \<Rightarrow> tracker" where
  "poll_codex_file w e p now t =
     (case getmtime w p of
        None \<Rightarrow> t
      | Some mtime \<Rightarrow>
          if mtime < now - 3600 then t
          else tail_file w p (cursor_key w ''codex_session'' ''codex_session'' p)
                 (''poll_codex_sessions('' @ p @ '')'') (codex_line w e p now) t)"

text \<open>\<^verbatim>\<open>poll_codex_sessions\<close> (lines 326 to 393).\<close>

definition poll_codex_sessions :: "world \<Rightarrow> environ \<Rightarrow> real \<Rightarrow> tracker \<Rightarrow> tracker" where
  "poll_codex_sessions w e now t =
     (if \<not> codex_isdir w then t
      else
        (case codex_glob w of
           None \<Rightarrow> t\<lparr>error_log := error_log t @ [''glob codex sessions'']\<rparr>
         | Some session_files \<Rightarrow> foldl (\<lambda>t' p. poll_codex_file w e p now t') t session_files))"

text \<open>
  A line handler keeps the cursors and the error bookkeeping of the tracker, whether it
  returns or raises.
\<close>

definition keeps_bookkeeping ::
  "(string \<Rightarrow> tracker \<Rightarrow> py_exception \<times> tracker + tracker) \<Rightarrow> bool" where
  "keeps_bookkeeping handle =
     (\<forall>l t t'. handle l t = Inr t' \<or> (\<exists>ex. handle l t = Inl (ex, t')) \<longrightarrow>
        file_cursors t' = file_cursors t \<and> error_count t' = error_count t
        \<and> error_log t' = error_log t)"

section \<open>Worlds for the examples\<close>

text \<open>
  The history file of the claude_code source holds the single line of the dedupe
  scenario, 38 bytes with its newline; the shell history cannot be read.
\<close>

definition hello_line :: string where
  "hello_line = ''{'' @ [CHR 0x22] @ ''sessionId'' @ [CHR 0x22] @ '':'' @ [CHR 0x22] @ ''s1''
                 @ [CHR 0x22] @ '','' @ [CHR 0x22] @ ''display'' @ [CHR 0x22] @ '':'' @ [CHR 0x22]
                 @ ''hello'' @ [CHR 0x22] @ ''}''"

definition hello_world :: world where
  "hello_world =
     \<lparr> getsize = (\<lambda>p. if p = ''/home/u/.claude/history.jsonl'' then Some 38 else None),
       getmtime = (\<lambda>p. None),
       read_lines = (\<lambda>p offset. if p = ''/home/u/.claude/history.jsonl'' \<and> offset = 0
                                 then ([hello_line @ [CHR 0x0A]], False) else ([], True)),
       json_loads = (\<lambda>s. if s = hello_line
                          then Decoded (JObj [(''sessionId'', JStr ''s1''), (''display'', JStr ''hello'')])
                          else JSONDecodeError),
       md5_hex = (\<lambda>s. ''md5:'' @ s),
       utf8_encodes = (\<lambda>s. True),
       local_day = (\<lambda>ts. Inr ''20231114''),
       codex_isdir = False,
       codex_glob = None \<rparr>"

definition claude_cfg :: source_cfg where
  "claude_cfg =
     \<lparr> path = ''/home/u/.claude/history.jsonl'', sid_keys = [''sessionId'', ''session_id''],
       text_keys = [''display'', ''text'', ''input'', ''prompt''] \<rparr>"

text \<open>
  The tracker after the pass that read the line when the file was longer: session
  \<open>s1\<close> holds the message, and the cursor of the file stands at 100.
\<close>

definition tracker_hello :: tracker where
  "tracker_hello =
     empty_tracker\<lparr>
       sessions := [(''s1'', \<lparr>last_seen = 50, messages = [''hello''], exported = False,
                             source = ''claude_code'', created = 50, last_hash = ''md5:hello''\<rparr>)],
       file_cursors := [(''k'', 100)],
       last_activity_ts := 50\<rparr>"

text \<open>The same file where every attempt to open it fails.\<close>

definition unreadable_world :: world where
  "unreadable_world = hello_world\<lparr>read_lines := (\<lambda>p offset. ([], True))\<rparr>"

text \<open>The same file where \<^verbatim>\<open>getsize\<close> fails.\<close>

definition vanished_world :: world where
  "vanished_world = hello_world\<lparr>getsize := (\<lambda>p. None)\<rparr>"

section \<open>Outbox retry\<close>

text \<open>
  What \<^verbatim>\<open>_retry_pending\<close> sees: whether an HTTP client exists, the files that
  \<^verbatim>\<open>PENDING_DIR.glob("*.md")\<close> lists, the modification time of each (\<open>None\<close> when
  \<^verbatim>\<open>stat\<close> raises), the outcome of the POST for a file (a status code, or an
  exception such as a timeout or a refused connection) and whether \<^verbatim>\<open>unlink\<close> raises.
\<close>

datatype post_outcome = Status nat | PostRaises

record outbox =
  http_client :: bool
  pending_glob :: "string list"
  stat_mtime :: "string \<Rightarrow> real option"
  post :: "string \<Rightarrow> post_outcome"
  unlink_raises :: "string \<Rightarrow> bool"

record retry_result =
  posted :: "string list"
  deleted :: "string list"

text \<open>
  The loop of lines 646 to 663: a response below 300 deletes the file, any other
  response goes on to the next file, an exception (of the POST or of the deletion) breaks.
\<close>

fun retry_loop :: "outbox \<Rightarrow> string list \<Rightarrow> retry_result" where
  "retry_loop ob [] = \<lparr>posted = [], deleted = []\<rparr>"
| "retry_loop ob (pf # pfs) =
     (case post ob pf of
        PostRaises \<Rightarrow> \<lparr>posted = [pf], deleted = []\<rparr>
      | Status code \<Rightarrow>
          if code < 300 then
            (if unlink_raises ob pf then \<lparr>posted = [pf], deleted = []\<rparr>
             else (let r = retry_loop ob pfs
                   in r\<lparr>posted := pf # posted r, deleted := pf # deleted r\<rparr>))
          else (let r = retry_loop ob pfs in r\<lparr>posted := pf # posted r\<rparr>))"

text \<open>\<^verbatim>\<open>sorted(PENDING_DIR.glob("*.md"), key=lambda p: p.stat().st_mtime)\<close>.\<close>

fun stat_all :: "outbox \<Rightarrow> string list \<Rightarrow> py_exception + (real \<times> string) list" where
  "stat_all ob [] = Inr []"
| "stat_all ob (f # fs) =
     (case stat_mtime ob f of
        None \<Rightarrow> Inl OSError
      | Some m \<Rightarrow> (case stat_all ob fs of Inl ex \<Rightarrow> Inl ex | Inr ms \<Rightarrow> Inr ((m, f) # ms)))"

definition sorted_pending :: "outbox \<Rightarrow> py_exception + string list" where
  "sorted_pending ob =
     (case stat_all ob (pending_glob ob) of
        Inl ex \<Rightarrow> Inl ex
      | Inr ms \<Rightarrow> Inr (map snd (sort_key fst ms)))"

text \<open>\<^verbatim>\<open>_retry_pending\<close> (lines 637 to 663); \<open>now\<close> is the \<^verbatim>\<open>time.time()\<close> of line 645.\<close>

definition retry_pending :: "outbox \<Rightarrow> real \<Rightarrow> tracker \<Rightarrow> py_exception + tracker \<times> retry_result" where
  "retry_pending ob now t =
     (if \<not> http_client ob then Inr (t, \<lparr>posted = [], deleted = []\<rparr>)
      else
        (case sorted_pending ob of
           Inl ex \<Rightarrow> Inl ex
         | Inr pending \<Rightarrow>
             if pending = [] then Inr (t, \<lparr>posted = [], deleted = []\<rparr>)
             else Inr (t\<lparr>last_pending_retry := now\<rparr>, retry_loop ob (take 8 pending))))"

text \<open>An outbox of two files: the remote answers 500 for the older and 200 for the newer.\<close>

definition outbox_500_200 :: outbox where
  "outbox_500_200 =
     \<lparr> http_client = True,
       pending_glob = [''b.md'', ''a.md''],
       stat_mtime = (\<lambda>f. if f = ''a.md'' then Some 1 else Some 2),
       post = (\<lambda>f. if f = ''a.md'' then Status 500 else Status 200),
       unlink_raises = (\<lambda>f. False) \<rparr>"

text \<open>The same outbox with a remote that is down: the first POST raises.\<close>

definition outbox_down :: outbox where
  "outbox_down = outbox_500_200\<lparr>post := (\<lambda>f. PostRaises)\<rparr>"

section \<open>Start of the process\<close>

text \<open>
  \<^verbatim>\<open>main\<close> up to its loop (lines 741 to 760), with the module-level code it depends
  on: the URL is read from the environment (line 29) and written to the log (line 744);
  nothing else looks at it.  The result is the exit of the process with a message, or
  the log lines and the tracker with which the main loop is entered.
\<close>

definition daemon_startup :: "environ \<Rightarrow> string + string list \<times> tracker" where
  "daemon_startup e =
     Inr ([''Starting OpenViking Hardened Daemon v3.0'',
           ''OpenViking URL: '' @ OPENVIKING_URL e],
          empty_tracker)"

text \<open>
  The sibling script \<^verbatim>\<open>openviking_mcp.py\<close> reads the same variable and checks it when
  the module is loaded (lines 17 to 22).
\<close>

fun before_first :: "string \<Rightarrow> string \<Rightarrow> string" where
  "before_first sep [] = []"
| "before_first sep (c # cs) = (if startswith (c # cs) sep then [] else c # before_first sep cs)"

fun find_after :: "string \<Rightarrow> string \<Rightarrow> string option" where
  "find_after sep [] = None"
| "find_after sep (c # cs) =
     (if startswith (c # cs) sep then Some (drop (length sep) (c # cs)) else find_after sep cs)"

text \<open>\<^verbatim>\<open>url.split("://", 1)[-1].split("/", 1)[0].split(":")[0]\<close>.\<close>

definition ov_host :: "string \<Rightarrow> string" where
  "ov_host url =
     before_first '':''
       (before_first ''/'' (case find_after ''://'' url of None \<Rightarrow> url | Some r \<Rightarrow> r))"

definition mcp_startup :: "environ \<Rightarrow> string + unit" where
  "mcp_startup e =
     (if ov_host (OPENVIKING_URL e) \<notin> set [''127.0.0.1'', ''localhost'', ''::1'']
         \<and> \<not> startswith (OPENVIKING_URL e) ''https://''
      then Inl (''Remote OPENVIKING_URL must use https://. Got: '' @ OPENVIKING_URL e)
      else Inr ())"

definition remote_http_environ :: environ where
  "remote_http_environ = default_environ\<lparr>OPENVIKING_URL := ''http://memory.example.com/api/v1''\<rparr>"

text \<open>The modification times of a list of outbox files (0 where \<^verbatim>\<open>stat\<close> raises).\<close>

definition mtimes :: "outbox \<Rightarrow> string list \<Rightarrow> real list" where
  "mtimes ob fs = map (\<lambda>f. case stat_mtime ob f of None \<Rightarrow> 0 | Some m \<Rightarrow> m) fs"

text \<open>A POST that was answered with a status below 300, followed by a deletion that did not raise.\<close>

definition acknowledged :: "outbox \<Rightarrow> string \<Rightarrow> bool" where
  "acknowledged ob f =
     ((case post ob f of Status code \<Rightarrow> code < 300 | PostRaises \<Rightarrow> False) \<and> \<not> unlink_raises ob f)"

text \<open>
  A file at which the loop breaks: its POST raised, or it was answered with a status
  below 300 and the deletion raised (both end in the \<^verbatim>\<open>except\<close> branch of lines 662
  and 663).
\<close>

definition halts_batch :: "outbox \<Rightarrow> string \<Rightarrow> bool" where
  "halts_batch ob f =
     (case post ob f of PostRaises \<Rightarrow> True | Status code \<Rightarrow> code < 300 \<and> unlink_raises ob f)"

section \<open>Facts about dictionaries\<close>

lemma foldl_dict_del:
  "foldl dict_del d ks = filter (\<lambda>kv. fst kv \<notin> set ks) d"
proof (induction ks arbitrary: d)
  case Nil
  show ?case by simp
next
  case (Cons k ks)
  have "foldl dict_del (dict_del d k) ks = filter (\<lambda>kv. fst kv \<notin> set ks) (dict_del d k)"
    by (rule Cons.IH)
  also have "\<dots> = filter (\<lambda>kv. fst kv \<notin> set (k # ks)) d"
    unfolding dict_del_def by (induction d) auto
  finally show ?case by simp
qed

lemma length_filter_keys:
  assumes "distinct (map fst d)" and "distinct ks" and "set ks \<subseteq> fst ` set d"
  shows "length (filter (\<lambda>kv. fst kv \<notin> set ks) d) = length d - length ks"
proof -
  have "length (filter (\<lambda>kv. fst kv \<notin> set ks) d)
          = length (filter (\<lambda>k. k \<notin> set ks) (map fst d))"
    by (simp add: filter_map comp_def)
  also have "\<dots> = card (set (filter (\<lambda>k. k \<notin> set ks) (map fst d)))"
    using assms(1) distinct_card [of "filter (\<lambda>k. k \<notin> set ks) (map fst d)"]
    by (simp only: distinct_filter)
  also have "set (filter (\<lambda>k. k \<notin> set ks) (map fst d)) = fst ` set d - set ks"
    by auto
  also have "card (fst ` set d - set ks) = card (fst ` set d) - card (set ks)"
    using assms(3) by (simp add: card_Diff_subset)
  also have "card (fst ` set d) = length d"
    using assms(1) by (metis distinct_card length_map list.set_map)
  also have "card (set ks) = length ks"
    using assms(2) by (simp add: distinct_card)
  finally show ?thesis .
qed

lemma cleanup_cursors_length:
  assumes "distinct (dict_keys (file_cursors t))"
    and "MAX_FILE_CURSORS e < int (length (file_cursors t))"
  shows "length (file_cursors (cleanup_cursors e t))
           = length (file_cursors t) - max 1 (length (file_cursors t) div 3)"
proof -
  let ?d = "file_cursors t"
  let ?keys = "sort (dict_keys ?d)"
  let ?n = "max 1 (length ?keys div 3)"
  have len: "length ?keys = length ?d"
    by (simp add: dict_keys_def)
  have d1: "distinct (take ?n ?keys)"
    using assms(1) by (simp add: distinct_take)
  have s1: "set (take ?n ?keys) \<subseteq> fst ` set ?d"
  proof -
    have "set (take ?n ?keys) \<subseteq> set ?keys" by (rule set_take_subset)
    then show ?thesis by (simp add: dict_keys_def)
  qed
  have "file_cursors (cleanup_cursors e t) = filter (\<lambda>kv. fst kv \<notin> set (take ?n ?keys)) ?d"
    using assms(2) by (simp add: cleanup_cursors_def Let_def foldl_dict_del)
  then have "length (file_cursors (cleanup_cursors e t)) = length ?d - length (take ?n ?keys)"
    using length_filter_keys [OF _ d1 s1] assms(1) by (simp add: dict_keys_def)
  also have "length (take ?n ?keys) = min (length ?d) ?n"
    using len by simp
  finally show ?thesis
    using len by (auto simp: min_def dict_keys_def)
qed

lemma distinct_cursors_1201: "distinct (dict_keys cursors_1201)"
proof -
  have "inj_on (\<lambda>i. replicate i CHR ''k'') (set [0..<1201])"
    by (rule inj_onI) (metis length_replicate)
  then have "distinct (map (\<lambda>i. replicate i CHR ''k'') [0..<1201])"
    by (simp add: distinct_map)
  then show ?thesis
    by (simp add: dict_keys_def cursors_1201_def comp_def)
qed

section \<open>Claim C8: the size of the cursor table after cleanup\<close>

text \<open>
  C8 (as amended).  Cleanup leaves a table at or below \<open>MAX_FILE_CURSORS\<close> untouched;
  above the cap it removes \<open>max 1 (n div 3)\<close> of the \<open>n\<close> cursors, so \<open>n - max 1 (n div 3)\<close>
  remain.  The result is within the cap whenever the table held at most one and a half
  times the cap before the call (\<open>2 * n \<le> 3 * MAX_FILE_CURSORS\<close>).
\<close>

theorem cleanup_cursors_bound:
  assumes "distinct (dict_keys (file_cursors t))"
  shows "(int (length (file_cursors t)) \<le> MAX_FILE_CURSORS e \<longrightarrow> cleanup_cursors e t = t)
       \<and> (MAX_FILE_CURSORS e < int (length (file_cursors t)) \<longrightarrow>
            length (file_cursors (cleanup_cursors e t))
              = length (file_cursors t) - max 1 (length (file_cursors t) div 3))
       \<and> (2 * int (length (file_cursors t)) \<le> 3 * MAX_FILE_CURSORS e \<longrightarrow>
            int (length (file_cursors (cleanup_cursors e t))) \<le> MAX_FILE_CURSORS e)"
proof (intro conjI impI)
  assume "int (length (file_cursors t)) \<le> MAX_FILE_CURSORS e"
  then show "cleanup_cursors e t = t"
    by (simp add: cleanup_cursors_def)
next
  assume "MAX_FILE_CURSORS e < int (length (file_cursors t))"
  then show "length (file_cursors (cleanup_cursors e t))
               = length (file_cursors t) - max 1 (length (file_cursors t) div 3)"
    using assms by (rule cleanup_cursors_length [rotated])
next
  assume small: "2 * int (length (file_cursors t)) \<le> 3 * MAX_FILE_CURSORS e"
  show "int (length (file_cursors (cleanup_cursors e t))) \<le> MAX_FILE_CURSORS e"
  proof (cases "int (length (file_cursors t)) \<le> MAX_FILE_CURSORS e")
    case True
    then show ?thesis by (simp add: cleanup_cursors_def)
  next
    case False
    then have "length (file_cursors (cleanup_cursors e t))
                 = length (file_cursors t) - max 1 (length (file_cursors t) div 3)"
      using assms cleanup_cursors_length by simp
    with small False show ?thesis by (simp add: max_def) linarith
  qed
qed

theorem cleanup_cursors_bound_witness:
  "distinct (dict_keys (file_cursors tracker_3))
   \<and> MAX_FILE_CURSORS (default_environ\<lparr>VIKING_MAX_FILE_CURSORS := 2\<rparr>)
        < int (length (file_cursors tracker_3))
   \<and> length (file_cursors (cleanup_cursors (default_environ\<lparr>VIKING_MAX_FILE_CURSORS := 2\<rparr>) tracker_3)) = 2
   \<and> int (length (file_cursors (cleanup_cursors (default_environ\<lparr>VIKING_MAX_FILE_CURSORS := 2\<rparr>) tracker_3)))
        \<le> MAX_FILE_CURSORS (default_environ\<lparr>VIKING_MAX_FILE_CURSORS := 2\<rparr>)"
proof -
  have d: "distinct (dict_keys (file_cursors tracker_3))"
    by (simp add: tracker_3_def dict_keys_def)
  show ?thesis
    using d cleanup_cursors_bound [OF d, of "default_environ\<lparr>VIKING_MAX_FILE_CURSORS := 2\<rparr>"]
    by (simp add: tracker_3_def MAX_FILE_CURSORS_def)
qed

text \<open>
  C8 as stated fails: with the default cap of 800 and 1201 cursors before the call,
  cleanup removes 400 and leaves 801.
\<close>

theorem cleanup_cursors_counterexample:
  "length (file_cursors tracker_1201) = 1201
   \<and> length (file_cursors (cleanup_cursors default_environ tracker_1201)) = 801
   \<and> \<not> int (length (file_cursors (cleanup_cursors default_environ tracker_1201)))
         \<le> MAX_FILE_CURSORS default_environ"
proof -
  have n: "length (file_cursors tracker_1201) = 1201"
    by (simp add: tracker_1201_def cursors_1201_def)
  have d: "distinct (dict_keys (file_cursors tracker_1201))"
    using distinct_cursors_1201 by (simp add: tracker_1201_def)
  have m: "MAX_FILE_CURSORS default_environ = 800"
    by (simp add: MAX_FILE_CURSORS_def default_environ_def)
  have "length (file_cursors (cleanup_cursors default_environ tracker_1201))
          = length (file_cursors tracker_1201) - max 1 (length (file_cursors tracker_1201) div 3)"
    using d by (rule cleanup_cursors_length) (simp add: n m)
  then have "length (file_cursors (cleanup_cursors default_environ tracker_1201)) = 801"
    by (simp add: n)
  then show ?thesis
    using n m by simp
qed

section \<open>Claim C1: the URL scheme at startup\<close>

lemma daemon_startup_never_exits: "\<exists>lg t. daemon_startup e = Inr (lg, t)"
  by (simp add: daemon_startup_def)

text \<open>
  C1.  The claim asks that a plain-http URL with a host that is no loopback literal stops
  the daemon with a non-zero exit before the main loop.  Evaluated at the URL
  \<^verbatim>\<open>http://memory.example.com/api/v1\<close>: the host is \<^verbatim>\<open>memory.example.com\<close>, the
  scheme is not https, the sibling script \<^verbatim>\<open>openviking_mcp.py\<close> exits on it, and the
  daemon only logs the URL and enters its main loop.
\<close>

theorem daemon_startup_remote_http:
  "ov_host (OPENVIKING_URL remote_http_environ) = ''memory.example.com''
   \<and> \<not> startswith (OPENVIKING_URL remote_http_environ) ''https://''
   \<and> mcp_startup remote_http_environ
        = Inl ''Remote OPENVIKING_URL must use https://. Got: http://memory.example.com/api/v1''
   \<and> daemon_startup remote_http_environ
        = Inr ([''Starting OpenViking Hardened Daemon v3.0'',
                ''OpenViking URL: http://memory.example.com/api/v1''],
               empty_tracker)"
proof -
  have u: "OPENVIKING_URL remote_http_environ = ''http://memory.example.com/api/v1''"
    by (simp add: remote_http_environ_def)
  have h: "ov_host ''http://memory.example.com/api/v1'' = ''memory.example.com''"
    by (simp add: ov_host_def startswith_def)
  have s: "\<not> startswith ''http://memory.example.com/api/v1'' ''https://''"
    by (simp add: startswith_def)
  have m: "mcp_startup remote_http_environ
             = Inl ''Remote OPENVIKING_URL must use https://. Got: http://memory.example.com/api/v1''"
    unfolding mcp_startup_def u h using s by simp
  have d: "daemon_startup remote_http_environ
             = Inr ([''Starting OpenViking Hardened Daemon v3.0'',
                     ''OpenViking URL: http://memory.example.com/api/v1''],
                    empty_tracker)"
    unfolding daemon_startup_def u by simp
  show ?thesis
    unfolding u using h s m d by simp
qed

section \<open>Claim C4: the opencode record with parts and input\<close>

lemma opencode_candidates:
  "map text_keys (candidates home ''opencode'')
     = [[''input'', ''prompt'', ''text''], [''input'', ''prompt'', ''text''],
        [''input'', ''prompt'', ''text'']]
   \<and> map sid_keys (candidates home ''opencode'')
     = [[''session_id'', ''sessionId'', ''id''], [''session_id'', ''sessionId'', ''id''],
        [''session_id'', ''sessionId'', ''id'']]"
  by (simp add: candidates_def JSONL_SOURCES_def)

lemma strip_pre: "strip ''pre'' = ''pre''"
  by (simp add: strip_def is_space_def)

lemma strip_a: "strip ''a'' = ''a''"
  by (simp add: strip_def is_space_def)

lemma strip_b: "strip ''b'' = ''b''"
  by (simp add: strip_def is_space_def)

lemma strip_x: "strip ''x'' = ''x''"
  by (simp add: strip_def is_space_def)

lemma opencode_record_sid:
  "extract_sid opencode_record [''session_id'', ''sessionId'', ''id''] ''opencode'' = Inr ''x''"
  by (simp add: opencode_record_def json_get_def strip_x)

lemma opencode_record_text:
  "extract_text opencode_record [''input'', ''prompt'', ''text''] = Inr ''pre''"
  by (simp add: opencode_record_def extract_text_def json_get_def strip_pre)

lemma opencode_record_fallback:
  "extract_text opencode_record [''prompt'', ''text'']
     = Inr (''pre'' @ [CHR 0x0A] @ ''a'' @ [CHR 0x0A] @ ''b'')"
  by (simp add: opencode_record_def extract_text_def json_get_def strip_pre strip_a strip_b)

text \<open>
  C4.  The claim expects the single message \<^verbatim>\<open>"pre\na\nb"\<close> under session \<open>x\<close>.  Every
  candidate of the opencode source probes the key \<^verbatim>\<open>input\<close> first, so the key probe
  of \<^verbatim>\<open>_extract_text\<close> returns \<^verbatim>\<open>"pre"\<close> and the \<^verbatim>\<open>parts\<close> fallback is never
  reached; the session id is \<open>x\<close>.  The fallback alone (a key list without
  \<^verbatim>\<open>input\<close>) gives the text of the claim.
\<close>

theorem opencode_record_extraction:
  "map (\<lambda>src. (extract_sid opencode_record (sid_keys src) ''opencode'',
                extract_text opencode_record (text_keys src)))
       (candidates home ''opencode'')
     = [(Inr ''x'', Inr ''pre''), (Inr ''x'', Inr ''pre''), (Inr ''x'', Inr ''pre'')]
   \<and> extract_text opencode_record [''prompt'', ''text'']
     = Inr (''pre'' @ [CHR 0x0A] @ ''a'' @ [CHR 0x0A] @ ''b'')"
proof -
  have "map (\<lambda>src. (extract_sid opencode_record (sid_keys src) ''opencode'',
                     extract_text opencode_record (text_keys src)))
            (candidates home ''opencode'')
          = [(Inr ''x'', Inr ''pre''), (Inr ''x'', Inr ''pre''), (Inr ''x'', Inr ''pre'')]"
    by (simp add: candidates_def JSONL_SOURCES_def opencode_record_sid opencode_record_text
          del: extract_sid.simps)
  then show ?thesis
    using opencode_record_fallback by simp
qed

section \<open>Claim C9: the sleep interval\<close>

lemma nearest_due_loop_le:
  "nearest_due_loop e now ds nd = Some v \<Longrightarrow>
     (\<forall>d\<in>set ds. \<not> exported d \<longrightarrow> v \<le> real_of_int (IDLE_TIMEOUT_SEC e) - (now - last_seen d))
     \<and> (\<forall>u. nd = Some u \<longrightarrow> v \<le> u)"
proof (induction ds arbitrary: nd)
  case Nil
  then show ?case by simp
next
  case (Cons d ds)
  show ?case
  proof (cases "exported d")
    case True
    with Cons.prems have "nearest_due_loop e now ds nd = Some v" by simp
    from Cons.IH [OF this] True show ?thesis by simp
  next
    case False
    let ?r = "real_of_int (IDLE_TIMEOUT_SEC e) - (now - last_seen d)"
    show ?thesis
    proof (cases nd)
      case None
      with False Cons.prems have "nearest_due_loop e now ds (Some ?r) = Some v"
        by (simp add: Let_def)
      from Cons.IH [OF this] None show ?thesis by simp
    next
      case (Some u)
      show ?thesis
      proof (cases "?r < u")
        case True
        with False Some Cons.prems have "nearest_due_loop e now ds (Some ?r) = Some v"
          by (simp add: Let_def)
        from Cons.IH [OF this] Some True show ?thesis by auto
      next
        case nless: False
        with False Some Cons.prems have "nearest_due_loop e now ds (Some u) = Some v"
          by (simp add: Let_def)
        from Cons.IH [OF this] Some nless show ?thesis by auto
      qed
    qed
  qed
qed

lemma nearest_due_loop_Some:
  "(\<exists>d\<in>set ds. \<not> exported d) \<or> nd \<noteq> None \<Longrightarrow> nearest_due_loop e now ds nd \<noteq> None"
proof (induction ds arbitrary: nd)
  case Nil
  then show ?case by simp
next
  case (Cons d ds)
  show ?case
  proof (cases "exported d")
    case True
    with Cons.prems have "(\<exists>d\<in>set ds. \<not> exported d) \<or> nd \<noteq> None" by auto
    from Cons.IH [OF this] True show ?thesis by simp
  next
    case False
    then show ?thesis
      using Cons.IH by (cases nd) (simp_all add: Let_def)
  qed
qed

lemma FAST_POLL_INTERVAL_SEC_pos: "1 \<le> FAST_POLL_INTERVAL_SEC e"
  by (simp add: FAST_POLL_INTERVAL_SEC_def)

lemma next_sleep_interval_steps:
  "\<exists>s1 s2 s3.
     s1 \<le> max 1 (POLL_INTERVAL_SEC e)
     \<and> (pending = Some True \<longrightarrow> s1 \<le> FAST_POLL_INTERVAL_SEC e)
     \<and> s2 \<le> s1
     \<and> (\<forall>v. nearest_due_loop e now (map snd (sessions t)) None = Some v
              \<and> v \<le> real_of_int (FAST_POLL_INTERVAL_SEC e) \<longrightarrow> s2 \<le> FAST_POLL_INTERVAL_SEC e)
     \<and> s3 \<le> s2
     \<and> next_sleep_interval e pending now t = max 1 s3"
proof -
  define F where "F = FAST_POLL_INTERVAL_SEC e"
  define s0 where "s0 = max 1 (POLL_INTERVAL_SEC e)"
  define s1 where "s1 = (if pending = Some True then min s0 F else s0)"
  define nd where "nd = nearest_due_loop e now (map snd (sessions t)) None"
  define s2 where "s2 =
    (case nd of
       None \<Rightarrow> s1
     | Some v \<Rightarrow>
         if v \<le> real_of_int F then min s1 F
         else if v < real_of_int s1 then min s1 (max 1 (py_int v)) else s1)"
  define s3 where "s3 =
    (if last_activity_ts t \<noteq> 0 \<and> now - last_activity_ts t < real_of_int (max 15 (F * 4))
     then min s2 F else s2)"
  have r: "next_sleep_interval e pending now t = max 1 s3"
    unfolding next_sleep_interval_def Let_def s3_def s2_def nd_def s1_def s0_def F_def ..
  have a: "s1 \<le> max 1 (POLL_INTERVAL_SEC e)"
    unfolding s1_def s0_def by simp
  have b: "pending = Some True \<longrightarrow> s1 \<le> FAST_POLL_INTERVAL_SEC e"
    unfolding s1_def F_def by simp
  have c: "s2 \<le> s1"
  proof (cases nd)
    case None
    then show ?thesis by (simp add: s2_def)
  next
    case (Some v)
    then show ?thesis by (simp add: s2_def)
  qed
  have d: "\<forall>v. nearest_due_loop e now (map snd (sessions t)) None = Some v
              \<and> v \<le> real_of_int (FAST_POLL_INTERVAL_SEC e) \<longrightarrow> s2 \<le> FAST_POLL_INTERVAL_SEC e"
    unfolding s2_def nd_def F_def by simp
  have f: "s3 \<le> s2"
    unfolding s3_def by simp
  from a b c d f r show ?thesis by blast
qed

lemma next_sleep_interval_floor: "1 \<le> next_sleep_interval e pending now t"
  using next_sleep_interval_steps [of e pending now t] by auto

lemma next_sleep_interval_poll:
  "next_sleep_interval e pending now t \<le> max 1 (POLL_INTERVAL_SEC e)"
proof -
  obtain s1 s2 s3 where "s1 \<le> max 1 (POLL_INTERVAL_SEC e)" "s2 \<le> s1" "s3 \<le> s2"
    and "next_sleep_interval e pending now t = max 1 s3"
    using next_sleep_interval_steps [of e pending now t] by blast
  then show ?thesis by linarith
qed

lemma next_sleep_interval_pending:
  "next_sleep_interval e (Some True) now t \<le> FAST_POLL_INTERVAL_SEC e"
proof -
  obtain s1 s2 s3 where "s1 \<le> FAST_POLL_INTERVAL_SEC e" "s2 \<le> s1" "s3 \<le> s2"
    and "next_sleep_interval e (Some True) now t = max 1 s3"
    using next_sleep_interval_steps [of e "Some True" now t] by blast
  then show ?thesis
    using FAST_POLL_INTERVAL_SEC_pos [of e] by linarith
qed

lemma next_sleep_interval_due:
  assumes "d \<in> set (map snd (sessions t))" and "\<not> exported d"
    and "real_of_int (IDLE_TIMEOUT_SEC e) - (now - last_seen d) \<le> real_of_int (FAST_POLL_INTERVAL_SEC e)"
  shows "next_sleep_interval e pending now t \<le> FAST_POLL_INTERVAL_SEC e"
proof -
  let ?nd = "nearest_due_loop e now (map snd (sessions t)) None"
  have "?nd \<noteq> None"
    using assms(1,2) by (intro nearest_due_loop_Some) blast
  then obtain v where v: "?nd = Some v" by blast
  from nearest_due_loop_le [OF v] assms(1,2)
  have "v \<le> real_of_int (IDLE_TIMEOUT_SEC e) - (now - last_seen d)" by blast
  with assms(3) have le: "v \<le> real_of_int (FAST_POLL_INTERVAL_SEC e)" by linarith
  obtain s1 s2 s3 where "s2 \<le> FAST_POLL_INTERVAL_SEC e" "s3 \<le> s2"
    and "next_sleep_interval e pending now t = max 1 s3"
    using next_sleep_interval_steps [of e pending now t] v le by blast
  then show ?thesis
    using FAST_POLL_INTERVAL_SEC_pos [of e] by linarith
qed

text \<open>
  C9 (as amended).  For every tracker state, configuration, outbox probe and time the
  sleep interval is at least 1 and at most \<open>max 1 POLL_INTERVAL_SEC\<close> (so at most
  \<open>POLL_INTERVAL_SEC\<close> when that is at least 1); it is at most \<open>FAST_POLL_INTERVAL_SEC\<close>
  whenever the outbox probe finds a pending file or some session that is not exported has
  a remaining idle time \<open>IDLE_TIMEOUT_SEC - (now - last_seen)\<close> of at most
  \<open>FAST_POLL_INTERVAL_SEC\<close>.
\<close>

theorem next_sleep_interval_bounds:
  "1 \<le> next_sleep_interval e pending now t
   \<and> next_sleep_interval e pending now t \<le> max 1 (POLL_INTERVAL_SEC e)
   \<and> (1 \<le> POLL_INTERVAL_SEC e \<longrightarrow> next_sleep_interval e pending now t \<le> POLL_INTERVAL_SEC e)
   \<and> (pending = Some True \<longrightarrow> next_sleep_interval e pending now t \<le> FAST_POLL_INTERVAL_SEC e)
   \<and> ((\<exists>d\<in>set (map snd (sessions t)). \<not> exported d
          \<and> real_of_int (IDLE_TIMEOUT_SEC e) - (now - last_seen d)
               \<le> real_of_int (FAST_POLL_INTERVAL_SEC e))
        \<longrightarrow> next_sleep_interval e pending now t \<le> FAST_POLL_INTERVAL_SEC e)"
proof (intro conjI impI)
  show "1 \<le> next_sleep_interval e pending now t"
    by (rule next_sleep_interval_floor)
  show "next_sleep_interval e pending now t \<le> max 1 (POLL_INTERVAL_SEC e)"
    by (rule next_sleep_interval_poll)
next
  assume "1 \<le> POLL_INTERVAL_SEC e"
  then show "next_sleep_interval e pending now t \<le> POLL_INTERVAL_SEC e"
    using next_sleep_interval_poll [of e pending now t] by simp
next
  assume "pending = Some True"
  then show "next_sleep_interval e pending now t \<le> FAST_POLL_INTERVAL_SEC e"
    using next_sleep_interval_pending by simp
next
  assume "\<exists>d\<in>set (map snd (sessions t)). \<not> exported d
            \<and> real_of_int (IDLE_TIMEOUT_SEC e) - (now - last_seen d)
                 \<le> real_of_int (FAST_POLL_INTERVAL_SEC e)"
  then show "next_sleep_interval e pending now t \<le> FAST_POLL_INTERVAL_SEC e"
    using next_sleep_interval_due by blast
qed

theorem next_sleep_interval_bounds_witness:
  "1 \<le> POLL_INTERVAL_SEC default_environ
   \<and> (\<exists>d\<in>set (map snd (sessions tracker_near_idle)). \<not> exported d
         \<and> real_of_int (IDLE_TIMEOUT_SEC default_environ) - (1000 - last_seen d)
              \<le> real_of_int (FAST_POLL_INTERVAL_SEC default_environ))
   \<and> 1 \<le> next_sleep_interval default_environ (Some True) 1000 tracker_near_idle
   \<and> next_sleep_interval default_environ (Some True) 1000 tracker_near_idle \<le> 30
   \<and> next_sleep_interval default_environ (Some True) 1000 tracker_near_idle \<le> 3"
  using next_sleep_interval_bounds [of default_environ "Some True" 1000 tracker_near_idle]
  by (simp add: POLL_INTERVAL_SEC_def FAST_POLL_INTERVAL_SEC_def IDLE_TIMEOUT_SEC_def
        default_environ_def tracker_near_idle_def empty_tracker_def)

text \<open>
  C9 as stated fails where \<open>POLL_INTERVAL_SEC\<close> is below 1: with
  \<^verbatim>\<open>VIKING_POLL_INTERVAL_SEC=0\<close>, an empty tracker and an empty outbox the interval
  is 1, which is above \<open>POLL_INTERVAL_SEC\<close>.
\<close>

theorem next_sleep_interval_counterexample:
  "POLL_INTERVAL_SEC poll_0_environ = 0
   \<and> next_sleep_interval poll_0_environ (Some False) 0 empty_tracker = 1
   \<and> \<not> next_sleep_interval poll_0_environ (Some False) 0 empty_tracker
         \<le> POLL_INTERVAL_SEC poll_0_environ"
  by (simp add: next_sleep_interval_def POLL_INTERVAL_SEC_def FAST_POLL_INTERVAL_SEC_def
        poll_0_environ_def default_environ_def empty_tracker_def)

section \<open>Claim C6: one batch of the outbox retry\<close>

lemma stat_all_Inr:
  "stat_all ob fs = Inr ms \<Longrightarrow>
     map snd ms = fs \<and> (\<forall>mf\<in>set ms. stat_mtime ob (snd mf) = Some (fst mf))"
proof (induction fs arbitrary: ms)
  case Nil
  then show ?case by simp
next
  case (Cons f fs)
  from Cons.prems obtain m ms' where m: "stat_mtime ob f = Some m"
    and ms': "stat_all ob fs = Inr ms'" and ms: "ms = (m, f) # ms'"
    by (auto split: option.splits sum.splits)
  from Cons.IH [OF ms'] m ms show ?case by simp
qed

lemma mtimes_map_snd:
  "\<forall>mf\<in>set xs. stat_mtime ob (snd mf) = Some (fst mf) \<Longrightarrow> mtimes ob (map snd xs) = map fst xs"
  by (induction xs) (simp_all add: mtimes_def)

lemma sorted_pending_Inr:
  assumes "sorted_pending ob = Inr pending"
  shows "set pending = set (pending_glob ob) \<and> length pending = length (pending_glob ob)
         \<and> sorted (mtimes ob pending)"
proof -
  from assms obtain ms where ms: "stat_all ob (pending_glob ob) = Inr ms"
    and p: "pending = map snd (sort_key fst ms)"
    by (auto simp: sorted_pending_def split: sum.splits)
  from stat_all_Inr [OF ms] have g: "map snd ms = pending_glob ob"
    and st: "\<forall>mf\<in>set ms. stat_mtime ob (snd mf) = Some (fst mf)" by simp_all
  have "set pending = snd ` set ms"
    unfolding p by simp
  also have "\<dots> = set (pending_glob ob)"
    using g by (metis list.set_map)
  finally have s: "set pending = set (pending_glob ob)" .
  have l: "length pending = length (pending_glob ob)"
    unfolding p using g by (metis length_map length_sort)
  have "\<forall>mf\<in>set (sort_key fst ms). stat_mtime ob (snd mf) = Some (fst mf)"
    using st by simp
  then have "mtimes ob pending = map fst (sort_key fst ms)"
    unfolding p by (rule mtimes_map_snd)
  then have "sorted (mtimes ob pending)"
    by (simp add: sorted_sort_key)
  with s l show ?thesis by simp
qed

lemma retry_loop_prefix: "\<exists>rest. fs = posted (retry_loop ob fs) @ rest"
proof (induction fs)
  case Nil
  show ?case by simp
next
  case (Cons f fs)
  then obtain rest where "fs = posted (retry_loop ob fs) @ rest" by blast
  then show ?case
    by (cases "post ob f") (auto simp: Let_def)
qed

lemma retry_loop_deleted:
  "deleted (retry_loop ob fs) = filter (acknowledged ob) (posted (retry_loop ob fs))"
proof (induction fs)
  case Nil
  show ?case by simp
next
  case (Cons f fs)
  then show ?case
    by (cases "post ob f") (simp_all add: Let_def acknowledged_def)
qed

lemma retry_loop_halts:
  "i < length (posted (retry_loop ob fs)) \<Longrightarrow> post ob (posted (retry_loop ob fs) ! i) = PostRaises
     \<Longrightarrow> Suc i = length (posted (retry_loop ob fs))"
proof (induction fs arbitrary: i)
  case Nil
  then show ?case by simp
next
  case (Cons f fs)
  show ?case
  proof (cases "post ob f")
    case PostRaises
    with Cons.prems show ?thesis by simp
  next
    case (Status code)
    show ?thesis
    proof (cases "code < 300 \<and> unlink_raises ob f")
      case True
      with Status Cons.prems show ?thesis by simp
    next
      case False
      then have p: "posted (retry_loop ob (f # fs)) = f # posted (retry_loop ob fs)"
        using Status by (auto simp: Let_def)
      show ?thesis
      proof (cases i)
        case 0
        with Cons.prems p Status show ?thesis by simp
      next
        case (Suc j)
        with Cons.prems p have "j < length (posted (retry_loop ob fs))"
          and "post ob (posted (retry_loop ob fs) ! j) = PostRaises" by simp_all
        from Cons.IH [OF this] Suc p show ?thesis by simp
      qed
    qed
  qed
qed

lemma retry_loop_all:
  "\<forall>f\<in>set fs. post ob f \<noteq> PostRaises \<and> \<not> unlink_raises ob f \<Longrightarrow> posted (retry_loop ob fs) = fs"
proof (induction fs)
  case Nil
  show ?case by simp
next
  case (Cons f fs)
  then show ?case
    by (cases "post ob f") (simp_all add: Let_def)
qed

lemma retry_loop_halts_batch:
  "i < length (posted (retry_loop ob fs)) \<Longrightarrow> halts_batch ob (posted (retry_loop ob fs) ! i)
     \<Longrightarrow> Suc i = length (posted (retry_loop ob fs))"
proof (induction fs arbitrary: i)
  case Nil
  then show ?case by simp
next
  case (Cons f fs)
  show ?case
  proof (cases "halts_batch ob f")
    case True
    then have "posted (retry_loop ob (f # fs)) = [f]"
      by (cases "post ob f") (simp_all add: halts_batch_def)
    with Cons.prems show ?thesis by simp
  next
    case False
    then have p: "posted (retry_loop ob (f # fs)) = f # posted (retry_loop ob fs)"
      by (cases "post ob f") (auto simp: halts_batch_def Let_def)
    show ?thesis
    proof (cases i)
      case 0
      with Cons.prems p False show ?thesis by simp
    next
      case (Suc j)
      with Cons.prems p have "j < length (posted (retry_loop ob fs))"
        and "halts_batch ob (posted (retry_loop ob fs) ! j)" by simp_all
      from Cons.IH [OF this] Suc p show ?thesis by simp
    qed
  qed
qed

lemma retry_loop_stops:
  "posted (retry_loop ob fs) \<noteq> fs \<Longrightarrow>
     posted (retry_loop ob fs) \<noteq> [] \<and> halts_batch ob (last (posted (retry_loop ob fs)))"
proof (induction fs)
  case Nil
  then show ?case by simp
next
  case (Cons f fs)
  show ?case
  proof (cases "halts_batch ob f")
    case True
    then have "posted (retry_loop ob (f # fs)) = [f]"
      by (cases "post ob f") (simp_all add: halts_batch_def)
    with True show ?thesis by simp
  next
    case False
    then have p: "posted (retry_loop ob (f # fs)) = f # posted (retry_loop ob fs)"
      by (cases "post ob f") (auto simp: halts_batch_def Let_def)
    with Cons.prems have "posted (retry_loop ob fs) \<noteq> fs" by simp
    from Cons.IH [OF this] p show ?thesis by simp
  qed
qed

text \<open>
  C6 (as amended).  A call that returns posts a prefix of the first 8 pending files in
  the order of ascending modification time (so at most 8), and nothing without an HTTP
  client; it deletes exactly the posted files whose POST was answered with a status below
  300 (and whose deletion did not raise); the batch halts at the first file whose POST or
  whose deletion raises: no file is posted after such a file, and the batch stops short of
  the first 8 files only at such a file, so a status of 300 or more never ends it.
\<close>

theorem retry_pending_batch:
  assumes "retry_pending ob now t = Inr (t', r)"
  shows "\<exists>pending.
           (http_client ob \<longrightarrow>
              sorted_pending ob = Inr pending \<and> set pending = set (pending_glob ob)
              \<and> length pending = length (pending_glob ob) \<and> sorted (mtimes ob pending))
           \<and> (\<not> http_client ob \<longrightarrow> pending = [])
           \<and> (\<exists>rest. take 8 pending = posted r @ rest)
           \<and> length (posted r) \<le> 8
           \<and> deleted r = filter (acknowledged ob) (posted r)
           \<and> (\<forall>i<length (posted r). post ob (posted r ! i) = PostRaises \<longrightarrow> Suc i = length (posted r))
           \<and> (\<forall>i<length (posted r). halts_batch ob (posted r ! i) \<longrightarrow> Suc i = length (posted r))
           \<and> (posted r \<noteq> take 8 pending \<longrightarrow> posted r \<noteq> [] \<and> halts_batch ob (last (posted r)))
           \<and> (http_client ob \<and> (\<forall>f\<in>set (take 8 pending). post ob f \<noteq> PostRaises \<and> \<not> unlink_raises ob f)
                \<longrightarrow> posted r = take 8 pending)"
proof (cases "http_client ob")
  case False
  with assms have "r = \<lparr>posted = [], deleted = []\<rparr>"
    by (simp add: retry_pending_def)
  with False show ?thesis
    by (intro exI [of _ "[]"]) simp
next
  case True
  with assms obtain pending where sp: "sorted_pending ob = Inr pending"
    by (auto simp: retry_pending_def split: sum.splits)
  have r: "r = retry_loop ob (take 8 pending)"
  proof (cases "pending = []")
    case True
    with assms \<open>http_client ob\<close> sp show ?thesis by (simp add: retry_pending_def)
  next
    case False
    with assms \<open>http_client ob\<close> sp show ?thesis by (simp add: retry_pending_def)
  qed
  obtain rest where pre: "take 8 pending = posted r @ rest"
    unfolding r using retry_loop_prefix by blast
  have "length (posted r) \<le> length (take 8 pending)"
    using pre by (metis le_add1 length_append)
  then have len: "length (posted r) \<le> 8" by simp
  have del: "deleted r = filter (acknowledged ob) (posted r)"
    unfolding r by (rule retry_loop_deleted)
  have halt: "\<forall>i<length (posted r). post ob (posted r ! i) = PostRaises \<longrightarrow> Suc i = length (posted r)"
    unfolding r using retry_loop_halts by blast
  have haltb: "\<forall>i<length (posted r). halts_batch ob (posted r ! i) \<longrightarrow> Suc i = length (posted r)"
    unfolding r using retry_loop_halts_batch by blast
  have stop: "posted r \<noteq> take 8 pending \<longrightarrow> posted r \<noteq> [] \<and> halts_batch ob (last (posted r))"
    unfolding r using retry_loop_stops by blast
  have all: "(\<forall>f\<in>set (take 8 pending). post ob f \<noteq> PostRaises \<and> \<not> unlink_raises ob f)
               \<longrightarrow> posted r = take 8 pending"
    unfolding r using retry_loop_all by blast
  from sorted_pending_Inr [OF sp] sp pre len del halt haltb stop all True show ?thesis
    by (intro exI [of _ pending]) blast
qed

lemma sorted_pending_500_200: "sorted_pending outbox_500_200 = Inr [''a.md'', ''b.md'']"
  by (simp add: sorted_pending_def outbox_500_200_def)

lemma sorted_pending_down: "sorted_pending outbox_down = Inr [''a.md'', ''b.md'']"
  by (simp add: sorted_pending_def outbox_down_def outbox_500_200_def)

lemma retry_pending_down:
  "retry_pending outbox_down 10 empty_tracker
     = Inr (empty_tracker\<lparr>last_pending_retry := 10\<rparr>, \<lparr>posted = [''a.md''], deleted = []\<rparr>)"
  by (simp add: retry_pending_def sorted_pending_down) (simp add: outbox_down_def outbox_500_200_def)

theorem retry_pending_batch_witness:
  "retry_pending outbox_down 10 empty_tracker
     = Inr (empty_tracker\<lparr>last_pending_retry := 10\<rparr>, \<lparr>posted = [''a.md''], deleted = []\<rparr>)
   \<and> http_client outbox_down
   \<and> post outbox_down ''a.md'' = PostRaises
   \<and> (\<exists>pending. sorted_pending outbox_down = Inr pending
         \<and> (\<exists>rest. take 8 pending = [''a.md''] @ rest)
         \<and> sorted (mtimes outbox_down pending))"
proof -
  have h: "http_client outbox_down" "post outbox_down ''a.md'' = PostRaises"
    by (simp_all add: outbox_down_def outbox_500_200_def)
  from retry_pending_batch [OF retry_pending_down] h(1)
  obtain pending where "sorted_pending outbox_down = Inr pending"
    and "\<exists>rest. take 8 pending = [''a.md''] @ rest" and "sorted (mtimes outbox_down pending)"
    by auto
  with retry_pending_down h show ?thesis by blast
qed

text \<open>
  C6 as stated fails: the POST of the older file is answered with 500, a failure, and
  the batch goes on to the newer file, posts it and deletes it.
\<close>

theorem retry_pending_counterexample:
  "post outbox_500_200 ''a.md'' = Status 500
   \<and> retry_pending outbox_500_200 10 empty_tracker
       = Inr (empty_tracker\<lparr>last_pending_retry := 10\<rparr>,
              \<lparr>posted = [''a.md'', ''b.md''], deleted = [''b.md'']\<rparr>)"
  by (simp add: retry_pending_def sorted_pending_500_200) (simp add: outbox_500_200_def)

section \<open>Facts about the tailers\<close>


lemma dict_get_dict_set_other: "k' \<noteq> k \<Longrightarrow> dict_get (dict_set d k v) k' = dict_get d k'"
  by (induction d) (auto simp: dict_get_def)

lemma upsert_session_keeps:
  assumes "upsert_session md5 e sid src text now t = Inr t' \<or>
           (\<exists>ex. upsert_session md5 e sid src text now t = Inl (ex, t'))"
  shows "file_cursors t' = file_cursors t \<and> error_count t' = error_count t
         \<and> error_log t' = error_log t"
  using assms
  by (auto simp: upsert_session_def Let_def split: sum.splits option.splits if_splits)

lemma jsonl_line_keeps: "keeps_bookkeeping (jsonl_line w e source_name src now)"
  unfolding keeps_bookkeeping_def
proof (intro allI impI)
  fix l t t'
  assume a: "jsonl_line w e source_name src now l t = Inr t' \<or>
             (\<exists>ex. jsonl_line w e source_name src now l t = Inl (ex, t'))"
  show "file_cursors t' = file_cursors t \<and> error_count t' = error_count t
        \<and> error_log t' = error_log t"
  proof (cases "t' = t")
    case True
    then show ?thesis by simp
  next
    case False
    with a obtain sid tx where
      "upsert_session (text_digest w) e sid source_name tx now t = Inr t' \<or>
       (\<exists>ex. upsert_session (text_digest w) e sid source_name tx now t = Inl (ex, t'))"
      by (auto simp: jsonl_line_def Let_def split: if_splits loads_result.splits sum.splits)
    then show ?thesis by (rule upsert_session_keeps)
  qed
qed

lemma shell_line_keeps: "keeps_bookkeeping (shell_line w e source_name now)"
  unfolding keeps_bookkeeping_def
proof (intro allI impI)
  fix l t t'
  assume a: "shell_line w e source_name now l t = Inr t' \<or>
             (\<exists>ex. shell_line w e source_name now l t = Inl (ex, t'))"
  show "file_cursors t' = file_cursors t \<and> error_count t' = error_count t
        \<and> error_log t' = error_log t"
  proof (cases "t' = t")
    case True
    then show ?thesis by simp
  next
    case False
    with a obtain sid tx where
      "upsert_session (text_digest w) e sid source_name tx now t = Inr t' \<or>
       (\<exists>ex. upsert_session (text_digest w) e sid source_name tx now t = Inl (ex, t'))"
      by (auto simp: shell_line_def split: sum.splits option.splits)
    then show ?thesis by (rule upsert_session_keeps)
  qed
qed

lemma codex_line_keeps: "keeps_bookkeeping (codex_line w e p now)"
  unfolding keeps_bookkeeping_def
proof (intro allI impI)
  fix l t t'
  assume a: "codex_line w e p now l t = Inr t' \<or>
             (\<exists>ex. codex_line w e p now l t = Inl (ex, t'))"
  show "file_cursors t' = file_cursors t \<and> error_count t' = error_count t
        \<and> error_log t' = error_log t"
  proof (cases "t' = t")
    case True
    then show ?thesis by simp
  next
    case False
    with a obtain tx where
      "upsert_session (text_digest w) e (basename p) ''codex_session'' tx now t = Inr t' \<or>
       (\<exists>ex. upsert_session (text_digest w) e (basename p) ''codex_session'' tx now t
                = Inl (ex, t'))"
      by (auto simp: codex_line_def Let_def
            split: if_splits loads_result.splits sum.splits option.splits)
    then show ?thesis by (rule upsert_session_keeps)
  qed
qed

lemma process_lines_keeps:
  assumes "keeps_bookkeeping handle"
  shows "process_lines handle ls t = (t', handled) \<Longrightarrow>
           file_cursors t' = file_cursors t \<and> error_count t' = error_count t
           \<and> error_log t' = error_log t"
proof (induction ls arbitrary: t)
  case Nil
  then show ?case by simp
next
  case (Cons l ls)
  show ?case
  proof (cases "handle l t")
    case (Inl ext)
    obtain ex t1 where ext: "ext = (ex, t1)" by (cases ext)
    with Inl Cons.prems have "t' = t1" by simp
    with Inl ext assms show ?thesis
      unfolding keeps_bookkeeping_def by blast
  next
    case (Inr t1)
    with Cons.prems have "process_lines handle ls t1 = (t', handled)" by simp
    from Cons.IH [OF this] assms Inr show ?thesis
      by (simp add: keeps_bookkeeping_def)
  qed
qed

text \<open>The cases of the shared protocol.\<close>

lemma tail_file_getsize_fails: "getsize w p = None \<Longrightarrow> tail_file w p ckey label handle t = t"
  by (simp add: tail_file_def)


lemma tail_file_read:
  assumes "getsize w p = Some cur_size" and "dict_get (file_cursors t) ckey = Some c"
    and "offset = (if cur_size < c then 0 else c)" and "offset < cur_size"
    and "read_lines w p offset = (lines, read_failed)"
    and "process_lines handle lines t = (t', handled)"
  shows "tail_file w p ckey label handle t =
           (if handled \<and> \<not> read_failed
            then t'\<lparr>file_cursors := dict_set (file_cursors t') ckey cur_size\<rparr>
            else t'\<lparr>error_count := error_count t' + 1, error_log := error_log t' @ [label]\<rparr>)"
  using assms by (simp add: tail_file_def Let_def)

lemma tail_file_failure:
  assumes "keeps_bookkeeping handle"
    and "getsize w p = Some cur_size" and "dict_get (file_cursors t) ckey = Some c"
    and "offset = (if cur_size < c then 0 else c)" and "offset < cur_size"
    and "read_lines w p offset = (lines, True)"
  shows "file_cursors (tail_file w p ckey label handle t) = file_cursors t
         \<and> error_count (tail_file w p ckey label handle t) = error_count t + 1
         \<and> error_log (tail_file w p ckey label handle t) = error_log t @ [label]"
proof -
  obtain t' handled where pl: "process_lines handle lines t = (t', handled)"
    by (cases "process_lines handle lines t") blast
  from process_lines_keeps [OF assms(1) pl]
  have k: "file_cursors t' = file_cursors t" "error_count t' = error_count t"
    "error_log t' = error_log t" by simp_all
  have "tail_file w p ckey label handle t
          = t'\<lparr>error_count := error_count t' + 1, error_log := error_log t' @ [label]\<rparr>"
    using tail_file_read [OF assms(2-6) pl] by simp
  with k show ?thesis by simp
qed

section \<open>Evaluating the scenario worlds\<close>













lemma tracker_hello_cursor: "dict_get (file_cursors tracker_hello) ''k'' = Some 100"
  by (simp add: tracker_hello_def dict_get_def)

section \<open>Claim C10: a file whose cursor is absent\<close>



section \<open>Claim C7: failures of getsize, open and read\<close>

text \<open>
  C7 (as amended).  In the JSONL tailer and in the shell tailer a failure of
  \<^verbatim>\<open>getsize\<close> leaves the whole tracker as it was: the cursor is unchanged, and the
  failure is neither counted nor logged.  When the file is to be read and opening or
  reading it fails (after any number of lines), the error counter goes up by one, one
  message is logged and the cursor table is unchanged.  In every case the pass returns a
  tracker, so the daemon continues.
\<close>

theorem tailer_io_failures:
  "(getsize w p = None \<longrightarrow>
      poll_jsonl_file w e source_name p src ckey now t = t
      \<and> poll_shell_source w e source_name p now t = t)
   \<and> (getsize w p = Some cur_size \<and> dict_get (file_cursors t) ckey = Some c
        \<and> (if cur_size < c then 0 else c) < cur_size
        \<and> read_lines w p (if cur_size < c then 0 else c) = (lines, True) \<longrightarrow>
        file_cursors (poll_jsonl_file w e source_name p src ckey now t) = file_cursors t
        \<and> error_count (poll_jsonl_file w e source_name p src ckey now t) = error_count t + 1
        \<and> error_log (poll_jsonl_file w e source_name p src ckey now t)
            = error_log t @ [''poll_jsonl_sources('' @ source_name @ '')''])
   \<and> (getsize w p = Some cur_size
        \<and> dict_get (file_cursors t) (cursor_key w ''shell'' source_name p) = Some c
        \<and> (if cur_size < c then 0 else c) < cur_size
        \<and> read_lines w p (if cur_size < c then 0 else c) = (lines, True) \<longrightarrow>
        file_cursors (poll_shell_source w e source_name p now t) = file_cursors t
        \<and> error_count (poll_shell_source w e source_name p now t) = error_count t + 1
        \<and> error_log (poll_shell_source w e source_name p now t)
            = error_log t @ [''poll_shell_sources('' @ source_name @ '')''])"
proof (intro conjI impI)
  assume "getsize w p = None"
  then show "poll_jsonl_file w e source_name p src ckey now t = t"
    and "poll_shell_source w e source_name p now t = t"
    by (simp_all add: poll_jsonl_file_def poll_shell_source_def tail_file_getsize_fails)
next
  assume a: "getsize w p = Some cur_size \<and> dict_get (file_cursors t) ckey = Some c
        \<and> (if cur_size < c then 0 else c) < cur_size
        \<and> read_lines w p (if cur_size < c then 0 else c) = (lines, True)"
  have "file_cursors (poll_jsonl_file w e source_name p src ckey now t) = file_cursors t
        \<and> error_count (poll_jsonl_file w e source_name p src ckey now t) = error_count t + 1
        \<and> error_log (poll_jsonl_file w e source_name p src ckey now t)
            = error_log t @ [''poll_jsonl_sources('' @ source_name @ '')'']"
    unfolding poll_jsonl_file_def
    using a by (intro tail_file_failure [OF jsonl_line_keeps, where c = c and lines = lines]) blast+
  then show "file_cursors (poll_jsonl_file w e source_name p src ckey now t) = file_cursors t"
    and "error_count (poll_jsonl_file w e source_name p src ckey now t) = error_count t + 1"
    and "error_log (poll_jsonl_file w e source_name p src ckey now t)
            = error_log t @ [''poll_jsonl_sources('' @ source_name @ '')'']"
    by simp_all
next
  assume a: "getsize w p = Some cur_size
        \<and> dict_get (file_cursors t) (cursor_key w ''shell'' source_name p) = Some c
        \<and> (if cur_size < c then 0 else c) < cur_size
        \<and> read_lines w p (if cur_size < c then 0 else c) = (lines, True)"
  have "file_cursors (poll_shell_source w e source_name p now t) = file_cursors t
        \<and> error_count (poll_shell_source w e source_name p now t) = error_count t + 1
        \<and> error_log (poll_shell_source w e source_name p now t)
            = error_log t @ [''poll_shell_sources('' @ source_name @ '')'']"
    unfolding poll_shell_source_def
    using a by (intro tail_file_failure [OF shell_line_keeps, where c = c and lines = lines]) blast+
  then show "file_cursors (poll_shell_source w e source_name p now t) = file_cursors t"
    and "error_count (poll_shell_source w e source_name p now t) = error_count t + 1"
    and "error_log (poll_shell_source w e source_name p now t)
            = error_log t @ [''poll_shell_sources('' @ source_name @ '')'']"
    by simp_all
qed

theorem tailer_io_failures_witness:
  "getsize unreadable_world ''/home/u/.claude/history.jsonl'' = Some 38
   \<and> dict_get (file_cursors tracker_hello) ''k'' = Some 100
   \<and> read_lines unreadable_world ''/home/u/.claude/history.jsonl'' 0 = ([], True)
   \<and> file_cursors (poll_jsonl_file unreadable_world default_environ ''claude_code''
                      ''/home/u/.claude/history.jsonl'' claude_cfg ''k'' 60 tracker_hello)
       = [(''k'', 100)]
   \<and> error_count (poll_jsonl_file unreadable_world default_environ ''claude_code''
                      ''/home/u/.claude/history.jsonl'' claude_cfg ''k'' 60 tracker_hello) = 1
   \<and> error_log (poll_jsonl_file unreadable_world default_environ ''claude_code''
                      ''/home/u/.claude/history.jsonl'' claude_cfg ''k'' 60 tracker_hello)
       = [''poll_jsonl_sources(claude_code)'']"
proof -
  have g: "getsize unreadable_world ''/home/u/.claude/history.jsonl'' = Some 38"
    and r: "read_lines unreadable_world ''/home/u/.claude/history.jsonl'' 0 = ([], True)"
    by (simp_all add: unreadable_world_def hello_world_def)
  show ?thesis
    using tailer_io_failures [of unreadable_world "''/home/u/.claude/history.jsonl''"
        default_environ "''claude_code''" claude_cfg "''k''" 60 tracker_hello 38 100 "[]"]
      g r tracker_hello_cursor
    by (simp add: tracker_hello_def empty_tracker_def)
qed

text \<open>
  C7 as stated fails for \<^verbatim>\<open>getsize\<close>: when it raises, the pass returns the tracker
  unchanged, with no error counted and nothing logged.
\<close>

theorem tailer_getsize_counterexample:
  "getsize vanished_world ''/home/u/.claude/history.jsonl'' = None
   \<and> error_count tracker_hello = 0
   \<and> error_count (poll_jsonl_file vanished_world default_environ ''claude_code''
                     ''/home/u/.claude/history.jsonl'' claude_cfg ''k'' 60 tracker_hello) = 0
   \<and> error_log (poll_jsonl_file vanished_world default_environ ''claude_code''
                     ''/home/u/.claude/history.jsonl'' claude_cfg ''k'' 60 tracker_hello) = []
   \<and> error_count (poll_shell_source vanished_world default_environ ''shell_zsh''
                     ''/home/u/.zsh_history'' 60 tracker_hello) = 0"
proof -
  have g: "getsize vanished_world p = None" for p
    by (simp add: vanished_world_def)
  have "poll_jsonl_file vanished_world default_environ ''claude_code''
          ''/home/u/.claude/history.jsonl'' claude_cfg ''k'' 60 tracker_hello = tracker_hello"
    unfolding poll_jsonl_file_def using g by (rule tail_file_getsize_fails)
  moreover have "poll_shell_source vanished_world default_environ ''shell_zsh''
          ''/home/u/.zsh_history'' 60 tracker_hello = tracker_hello"
    unfolding poll_shell_source_def using g by (rule tail_file_getsize_fails)
  ultimately show ?thesis
    using g by (simp add: tracker_hello_def empty_tracker_def)
qed

section \<open>Claim C2: a truncated or rotated file\<close>








section \<open>Claim C3: the idle sweep and the exported flag\<close>

lemma dict_get_Cons: "dict_get ((k, v) # d) x = (if k = x then Some v else dict_get d x)"
  by (simp add: dict_get_def)

lemma dict_get_None_iff: "dict_get d k = None \<longleftrightarrow> k \<notin> fst ` set d"
  by (simp add: dict_get_def map_of_eq_None_iff)

lemma dict_get_filter_keys:
  "dict_get (filter (\<lambda>kv. fst kv \<notin> K) d) x = (if x \<in> K then None else dict_get d x)"
  by (induction d) (auto simp: dict_get_def)

lemma dict_get_dict_del: "dict_get (dict_del d k) x = (if x = k then None else dict_get d x)"
  using dict_get_filter_keys [of "{k}" d x] by (simp add: dict_del_def)

lemma keys_dict_set: "fst ` set (dict_set d k v) = insert k (fst ` set d)"
proof (induction d)
  case Nil
  show ?case by simp
next
  case (Cons kv d)
  obtain k' v' where kv: "kv = (k', v')" by (cases kv)
  show ?case
  proof (cases "k' = k")
    case True
    with kv show ?thesis by simp
  next
    case False
    with kv Cons.IH show ?thesis by auto
  qed
qed

lemma distinct_dict_set: "distinct (map fst d) \<Longrightarrow> distinct (map fst (dict_set d k v))"
proof (induction d)
  case Nil
  show ?case by simp
next
  case (Cons kv d)
  obtain k' v' where kv: "kv = (k', v')" by (cases kv)
  show ?case
  proof (cases "k' = k")
    case True
    with Cons.prems kv show ?thesis by simp
  next
    case False
    have "k' \<notin> fst ` set (dict_set d k v)"
      using Cons.prems kv False by (simp add: keys_dict_set)
    with Cons kv False show ?thesis by simp
  qed
qed

lemma distinct_dict_del: "distinct (map fst d) \<Longrightarrow> distinct (map fst (dict_del d k))"
  by (simp add: dict_del_def distinct_map_filter)

lemma distinct_foldl_dict_del: "distinct (map fst d) \<Longrightarrow> distinct (map fst (foldl dict_del d ks))"
  by (simp add: foldl_dict_del distinct_map_filter)

lemma awaiting_Cons:
  "awaiting sid ((k, d) # rest)
     = (if k = sid then (if exported d then 0 else 1) else awaiting sid rest)"
  by (simp add: awaiting_def dict_get_Cons)

lemma awaiting_absent: "sid \<notin> fst ` set ss \<Longrightarrow> awaiting sid ss = 0"
  using dict_get_None_iff [of ss sid] by (simp add: awaiting_def)

lemma awaiting_filter_le: "awaiting sid (filter (\<lambda>kv. fst kv \<notin> K) ss) \<le> awaiting sid ss"
  by (simp add: awaiting_def dict_get_filter_keys split: option.split)

lemma awaiting_dict_del_le: "awaiting sid (dict_del ss k) \<le> awaiting sid ss"
  by (simp add: awaiting_def dict_get_dict_del split: option.split)

lemma awaiting_le_1: "awaiting sid ss \<le> 1"
  by (simp add: awaiting_def split: option.split)

subsection \<open>One sweep\<close>

lemma completed_exports_Cons:
  "completed_exports sid ((k, outcome) # calls)
     = (if k = sid \<and> outcome \<noteq> ExportRaises then 1 else 0) + completed_exports sid calls"
  by (simp add: completed_exports_def)

lemma completed_exports_Nil: "completed_exports sid [] = 0"
  by (simp add: completed_exports_def)

lemma sweep_items_keys: "map fst (swept (sweep_items e now ex items)) = map fst items"
proof (induction items)
  case Nil
  show ?case by simp
next
  case (Cons kv items)
  obtain k d where kv: "kv = (k, d)" by (cases kv)
  show ?case
    unfolding kv using Cons.IH
    by (cases "ex k d") (simp_all add: Let_def)
qed

lemma sweep_items_calls_keys:
  "fst ` set (export_calls (sweep_items e now ex items)) \<subseteq> fst ` set items"
proof (induction items)
  case Nil
  show ?case by simp
next
  case (Cons kv items)
  obtain k d where kv: "kv = (k, d)" by (cases kv)
  show ?case
    unfolding kv using Cons.IH
    by (cases "ex k d") (auto simp: Let_def)
qed

lemma completed_exports_absent:
  "sid \<notin> fst ` set calls \<Longrightarrow> completed_exports sid calls = 0"
  by (induction calls) (auto simp: completed_exports_def)

lemma sweep_items_absent:
  "sid \<notin> fst ` set items \<Longrightarrow> completed_exports sid (export_calls (sweep_items e now ex items)) = 0"
  using sweep_items_calls_keys [of e now ex items] by (intro completed_exports_absent) blast

lemma sweep_items_awaiting:
  "distinct (map fst items) \<Longrightarrow>
     completed_exports sid (export_calls (sweep_items e now ex items))
       + awaiting sid (swept (sweep_items e now ex items)) \<le> awaiting sid items"
proof (induction items)
  case Nil
  show ?case by (simp add: completed_exports_Nil)
next
  case (Cons kv items)
  obtain k d where kv: "kv = (k, d)" by (cases kv)
  let ?r = "sweep_items e now ex items"
  from Cons.prems kv have dist: "distinct (map fst items)" and fresh: "k \<notin> fst ` set items"
    by simp_all
  show ?case
  proof (cases "k = sid")
    case False
    have ih: "completed_exports sid (export_calls ?r) + awaiting sid (swept ?r) \<le> awaiting sid items"
      using Cons.IH dist by simp
    show ?thesis
      unfolding kv using False ih
      by (cases "ex k d")
        (simp_all add: Let_def awaiting_Cons completed_exports_Cons completed_exports_Nil)
  next
    case True
    have none: "completed_exports sid (export_calls ?r) = 0"
      using fresh True by (intro sweep_items_absent) simp
    show ?thesis
      unfolding kv using True none
      by (cases "ex k d")
        (simp_all add: Let_def awaiting_Cons completed_exports_Cons completed_exports_Nil)
  qed
qed

lemma sweep_items_to_remove:
  "k \<in> set (to_remove (sweep_items e now ex items)) \<Longrightarrow> \<exists>d. (k, d) \<in> set items \<and> exported d"
proof (induction items)
  case Nil
  then show ?case by simp
next
  case (Cons kv items)
  obtain k' d' where kv: "kv = (k', d')" by (cases kv)
  from Cons.prems have "k \<in> set (to_remove (sweep_items e now ex items)) \<or> (k = k' \<and> exported d')"
    unfolding kv by (cases "ex k' d'") (auto simp: Let_def split: if_splits)
  then show ?case
    using Cons.IH kv by auto
qed

text \<open>What one sweep that no exception ends does with a session of the table.\<close>

lemma sweep_items_at:
  assumes "distinct (map fst items)" and "dict_get items sid = Some d"
    and "\<not> raised (sweep_items e now ex items)"
  shows "dict_get (swept (sweep_items e now ex items)) sid
           = Some (if \<not> exported d \<and> now - last_seen d > real_of_int (IDLE_TIMEOUT_SEC e)
                   then d\<lparr>exported := True\<rparr> else d)
         \<and> completed_exports sid (export_calls (sweep_items e now ex items))
           = (if \<not> exported d \<and> now - last_seen d > real_of_int (IDLE_TIMEOUT_SEC e)
                 \<and> min_messages (source d) \<le> length (messages d) then 1 else 0)"
  using assms
proof (induction items)
  case Nil
  then show ?case by (simp add: dict_get_def)
next
  case (Cons kv items)
  obtain k d' where kv: "kv = (k, d')" by (cases kv)
  let ?r = "sweep_items e now ex items"
  from Cons.prems(1) kv have dist: "distinct (map fst items)" and fresh: "k \<notin> fst ` set items"
    by simp_all
  show ?case
  proof (cases "k = sid")
    case False
    with Cons.prems(2) kv have g: "dict_get items sid = Some d"
      by (simp add: dict_get_Cons)
    have nr: "\<not> raised ?r"
      using Cons.prems(3) unfolding kv
      by (cases "ex k d'") (auto simp: Let_def split: if_splits)
    note ih = Cons.IH [OF dist g nr]
    show ?thesis
      unfolding kv using False ih Cons.prems(3) [unfolded kv]
      by (cases "ex k d'")
        (auto simp: Let_def dict_get_Cons completed_exports_Cons split: if_splits)
  next
    case True
    with Cons.prems(2) kv have d: "d' = d"
      by (simp add: dict_get_Cons)
    have none: "completed_exports sid (export_calls ?r) = 0"
      using fresh True by (intro sweep_items_absent) simp
    show ?thesis
      unfolding kv d using True none Cons.prems(3) [unfolded kv d]
      by (cases "ex sid d")
        (auto simp: Let_def dict_get_Cons completed_exports_Cons split: if_splits)
  qed
qed

lemma check_and_export_idle_awaiting:
  assumes "distinct (map fst (sessions t))" and "check_and_export_idle e now ex t = (t', calls)"
  shows "completed_exports sid calls + awaiting sid (sessions t') \<le> awaiting sid (sessions t)
         \<and> distinct (map fst (sessions t'))"
proof -
  let ?r = "sweep_items e now ex (sessions t)"
  from assms(2) have calls: "calls = export_calls ?r"
    and ss: "sessions t' = (if raised ?r then swept ?r else foldl dict_del (swept ?r) (to_remove ?r))"
    by (auto simp: check_and_export_idle_def Let_def)
  have dist: "distinct (map fst (swept ?r))"
    using assms(1) by (simp add: sweep_items_keys)
  have "awaiting sid (sessions t') \<le> awaiting sid (swept ?r)"
    unfolding ss by (simp add: foldl_dict_del awaiting_filter_le)
  moreover have "completed_exports sid calls + awaiting sid (swept ?r) \<le> awaiting sid (sessions t)"
    unfolding calls using assms(1) by (rule sweep_items_awaiting)
  moreover have "distinct (map fst (sessions t'))"
    unfolding ss using dist by (simp add: distinct_foldl_dict_del)
  ultimately show ?thesis by linarith
qed

lemma check_and_export_idle_at:
  assumes "distinct (map fst (sessions t))" and "dict_get (sessions t) sid = Some d"
    and "check_and_export_idle e now ex t = (t', calls)"
    and "\<not> raised (sweep_items e now ex (sessions t))"
  shows "completed_exports sid calls
           = (if \<not> exported d \<and> now - last_seen d > real_of_int (IDLE_TIMEOUT_SEC e)
                 \<and> min_messages (source d) \<le> length (messages d) then 1 else 0)
         \<and> (\<not> exported d \<longrightarrow>
              dict_get (sessions t') sid
                = Some (if now - last_seen d > real_of_int (IDLE_TIMEOUT_SEC e)
                        then d\<lparr>exported := True\<rparr> else d))"
proof -
  let ?r = "sweep_items e now ex (sessions t)"
  from assms(3,4) have calls: "calls = export_calls ?r"
    and ss: "sessions t' = foldl dict_del (swept ?r) (to_remove ?r)"
    by (auto simp: check_and_export_idle_def Let_def)
  note at = sweep_items_at [OF assms(1,2,4)]
  have keep: "sid \<notin> set (to_remove ?r)" if "\<not> exported d"
  proof
    assume "sid \<in> set (to_remove ?r)"
    then obtain d' where m: "(sid, d') \<in> set (sessions t)" and e: "exported d'"
      using sweep_items_to_remove by blast
    from m assms(1) have "map_of (sessions t) sid = Some d'" by simp
    with assms(2) have "d' = d" by (simp add: dict_get_def)
    with e that show False by simp
  qed
  have "dict_get (sessions t') sid = dict_get (swept ?r) sid" if "\<not> exported d"
    unfolding ss using keep [OF that] by (simp add: foldl_dict_del dict_get_filter_keys)
  with at calls show ?thesis by simp
qed

subsection \<open>A sweep in which the export raises\<close>

lemma session_s1_fields:
  "exported session_s1 = False" "last_seen session_s1 = 702"
  "messages session_s1 = [''hello'', ''world'']" "source session_s1 = ''claude_code''"
  by (simp_all add: session_s1_def)

lemma session_s2_fields:
  "exported session_s2 = False" "last_seen session_s2 = 600"
  "messages session_s2 = [''bye'']" "source session_s2 = ''claude_code''"
  by (simp_all add: session_s2_def)

lemma min_messages_claude: "min_messages ''claude_code'' = 2"
  by (simp add: min_messages_def startswith_def)

lemma tracker_two_sessions: "sessions tracker_two = [(''s1'', session_s1), (''s2'', session_s2)]"
  by (simp add: tracker_two_def)

lemma sweep_two_raises:
  "now = 1003 \<or> now = 2000 \<Longrightarrow>
   sweep_items default_environ now export_raises [(''s1'', session_s1), (''s2'', session_s2)]
     = \<lparr>swept = [(''s1'', session_s1), (''s2'', session_s2)], to_remove = [],
        export_calls = [(''s1'', ExportRaises)], raised = True\<rparr>"
  by (auto simp: session_s1_fields min_messages_claude export_raises_def IDLE_TIMEOUT_SEC_def
        default_environ_def)

lemma sweep_two_write_fails:
  "sweep_items default_environ 1003 write_fails [(''s1'', session_s1), (''s2'', session_s2)]
     = \<lparr>swept = [(''s1'', session_s1\<lparr>exported := True\<rparr>), (''s2'', session_s2\<lparr>exported := True\<rparr>)],
        to_remove = [], export_calls = [(''s1'', ExportFalse)], raised = False\<rparr>"
  by (simp add: session_s1_fields session_s2_fields min_messages_claude write_fails_def
        IDLE_TIMEOUT_SEC_def default_environ_def)

lemma sweep_two_flagged:
  "sweep_items default_environ 2000 write_fails
     [(''s1'', session_s1\<lparr>exported := True\<rparr>), (''s2'', session_s2\<lparr>exported := True\<rparr>)]
     = \<lparr>swept = [(''s1'', session_s1\<lparr>exported := True\<rparr>), (''s2'', session_s2\<lparr>exported := True\<rparr>)],
        to_remove = [], export_calls = [], raised = False\<rparr>"
  by (simp add: session_s1_fields session_s2_fields SESSION_TTL_SEC_def default_environ_def)

text \<open>
  C3.  The claim says that the exported flag of a session is set when it expires, so that
  the sweep never fires again for it, and that a session that expires with enough
  messages is exported exactly once.  Evaluated on the tracker with the sessions \<open>s1\<close>
  (two messages) and \<open>s2\<close> (one message), both idle for more than 300 seconds, when
  \<^verbatim>\<open>_export\<close> raises: the sweep at 1003 calls \<^verbatim>\<open>_export\<close> for \<open>s1\<close> and ends
  there, no flag is set and the tracker is as before, so the sweep at 2000 fires for
  \<open>s1\<close> again, and \<open>s2\<close>, which lies behind it, is never reached.  Where the local
  write fails inside the \<^verbatim>\<open>try\<close> block of \<^verbatim>\<open>_export\<close>, the same sweep sets both
  flags and the next sweep calls nothing.
\<close>

theorem idle_sweep_export_raises:
  "check_and_export_idle default_environ 1003 export_raises tracker_two
     = (tracker_two, [(''s1'', ExportRaises)])
   \<and> check_and_export_idle default_environ 2000 export_raises
        (fst (check_and_export_idle default_environ 1003 export_raises tracker_two))
     = (tracker_two, [(''s1'', ExportRaises)])
   \<and> map (\<lambda>kv. (fst kv, exported (snd kv))) (sessions tracker_two)
     = [(''s1'', False), (''s2'', False)]
   \<and> completed_exports ''s1'' [(''s1'', ExportRaises)] = 0
   \<and> 1003 - last_seen session_s1 > real_of_int (IDLE_TIMEOUT_SEC default_environ)
   \<and> 1003 - last_seen session_s2 > real_of_int (IDLE_TIMEOUT_SEC default_environ)
   \<and> min_messages (source session_s1) \<le> length (messages session_s1)
   \<and> check_and_export_idle default_environ 1003 write_fails tracker_two
     = (tracker_two\<lparr>sessions := [(''s1'', session_s1\<lparr>exported := True\<rparr>),
                                  (''s2'', session_s2\<lparr>exported := True\<rparr>)]\<rparr>,
        [(''s1'', ExportFalse)])
   \<and> check_and_export_idle default_environ 2000 write_fails
        (fst (check_and_export_idle default_environ 1003 write_fails tracker_two))
     = (tracker_two\<lparr>sessions := [(''s1'', session_s1\<lparr>exported := True\<rparr>),
                                  (''s2'', session_s2\<lparr>exported := True\<rparr>)]\<rparr>,
        [])"
proof -
  have r: "check_and_export_idle default_environ now export_raises tracker_two
             = (tracker_two, [(''s1'', ExportRaises)])" if "now = 1003 \<or> now = 2000" for now
    unfolding check_and_export_idle_def tracker_two_sessions sweep_two_raises [OF that]
    by (simp add: Let_def tracker_two_def)
  have f1: "check_and_export_idle default_environ 1003 write_fails tracker_two
              = (tracker_two\<lparr>sessions := [(''s1'', session_s1\<lparr>exported := True\<rparr>),
                                           (''s2'', session_s2\<lparr>exported := True\<rparr>)]\<rparr>,
                 [(''s1'', ExportFalse)])"
    unfolding check_and_export_idle_def tracker_two_sessions sweep_two_write_fails
    by (simp add: Let_def)
  have f2: "check_and_export_idle default_environ 2000 write_fails
              (tracker_two\<lparr>sessions := [(''s1'', session_s1\<lparr>exported := True\<rparr>),
                                          (''s2'', session_s2\<lparr>exported := True\<rparr>)]\<rparr>)
              = (tracker_two\<lparr>sessions := [(''s1'', session_s1\<lparr>exported := True\<rparr>),
                                           (''s2'', session_s2\<lparr>exported := True\<rparr>)]\<rparr>,
                 [])"
    unfolding check_and_export_idle_def
    by (simp add: Let_def sweep_two_flagged del: sweep_items.simps)
  have m: "map (\<lambda>kv. (fst kv, exported (snd kv))) (sessions tracker_two)
             = [(''s1'', False), (''s2'', False)]"
    by (simp add: tracker_two_sessions session_s1_fields session_s2_fields)
  have c: "completed_exports ''s1'' [(''s1'', ExportRaises)] = 0"
    by (simp add: completed_exports_def)
  have i: "1003 - last_seen session_s1 > real_of_int (IDLE_TIMEOUT_SEC default_environ)"
    "1003 - last_seen session_s2 > real_of_int (IDLE_TIMEOUT_SEC default_environ)"
    "min_messages (source session_s1) \<le> length (messages session_s1)"
    by (simp_all add: session_s1_fields session_s2_fields min_messages_claude IDLE_TIMEOUT_SEC_def
          default_environ_def)
  show ?thesis
    unfolding f1 r [of 1003, simplified] fst_conv f2 r [of 2000, simplified]
    using m c i by simp
qed

section \<open>Claim C5: the sanitizer\<close>

subsection \<open>Where no pattern can match\<close>








subsection \<open>Stripping\<close>



subsection \<open>The sanitizer\<close>





subsection \<open>A text that is truncated\<close>












end
